theory Spec2Isabelle
  imports Main "HOL-Library.AList"
begin

section \<open>Shared vocabulary\<close>

text \<open>
  Go errors are values. The sentinel errors the drivers return or test for are
  \<^verbatim>\<open>service.ErrNotConnected\<close>, \<^verbatim>\<open>component.ErrTimeout\<close>, \<^verbatim>\<open>context.Canceled\<close>
  and \<^verbatim>\<open>context.DeadlineExceeded\<close>. An \<^verbatim>\<open>awserr.Error\<close> carries its code and its
  message (with the text of the error it wraps, when it wraps one); every other error
  of a collaborator carries its text.
  A Go \<^verbatim>\<open>error\<close> result is an \<open>err option\<close>: \<open>None\<close> is \<^verbatim>\<open>nil\<close>.
\<close>

datatype err =
    ErrNotConnected
  | ErrTimeout
  | ContextCanceled
  | DeadlineExceeded
  | AwsError string string
  | Upstream string

text \<open>\<^verbatim>\<open>err.Error()\<close>, the text of an error.\<close>

fun Error :: "err \<Rightarrow> string" where
  "Error ErrNotConnected = ''not connected to target source or sink''"
| "Error ErrTimeout = ''action timed out''"
| "Error ContextCanceled = ''context canceled''"
| "Error DeadlineExceeded = ''context deadline exceeded''"
| "Error (AwsError code message) = code @ '': '' @ message"
| "Error (Upstream text) = text"

text \<open>\<^verbatim>\<open>strings.HasSuffix(s, suffix)\<close>.\<close>

definition HasSuffix :: "string \<Rightarrow> string \<Rightarrow> bool" where
  "HasSuffix s suffix =
     (length suffix \<le> length s \<and> drop (length s - length suffix) s = suffix)"

section \<open>Connect of the four drivers\<close>

subsection \<open>SQS writer (output\_sqs.go, sqsWriter.Connect)\<close>

text \<open>
  \<^verbatim>\<open>a.sqs\<close> is an interface value, \<^verbatim>\<open>nil\<close> until Connect builds the client from
  the configured session. The logger is part of the state: every \<^verbatim>\<open>Infof\<close> appends a line.
\<close>

record sqsWriter =
  sqs_session :: nat
  sqs_URL :: string
  sqs :: "nat option"
  sqs_log :: "string list"

definition sqs_New :: "nat \<Rightarrow> nat" where
  "sqs_New sess = sess"

definition sqsWriter_Connect :: "sqsWriter \<Rightarrow> err option \<times> sqsWriter" where
  "sqsWriter_Connect a =
     (if sqs a \<noteq> None then (None, a)
      else (None, a\<lparr>sqs := Some (sqs_New (sqs_session a)),
                      sqs_log := sqs_log a @ [''Sending messages to Amazon SQS URL: '' @ sqs_URL a]\<rparr>))"

subsection \<open>NATS collaborators\<close>

text \<open>
  \<^verbatim>\<open>nats.Connect\<close>, \<^verbatim>\<open>natsConn.JetStream()\<close> and \<^verbatim>\<open>jsc.KeyValue(bucket)\<close> belong to
  the NATS client library. They are parameters of the model: a record of functions
  giving the outcome of each call. Connections, JetStream contexts and key-value
  handles are numbered.
\<close>

record nats_env =
  nats_Connect :: "string \<Rightarrow> err + nat"
  conn_JetStream :: "nat \<Rightarrow> err + nat"
  js_KeyValue :: "nat \<Rightarrow> string \<Rightarrow> nat option \<times> err option"

subsection \<open>NATS KV output (output\_kv.go, kvOutput.Connect)\<close>

text \<open>
  \<open>kv_closed\<close> collects the connections the deferred function closes when Connect
  fails after the connection was made.
\<close>

record kvOutput =
  kv_urls :: string
  kv_bucket :: string
  kv_keyRaw :: string
  kv_natsConn :: "nat option"
  kv_keyValue :: "nat option"
  kv_log :: "string list"
  kv_closed :: "nat list"

definition kvOutput_Connect :: "nats_env \<Rightarrow> kvOutput \<Rightarrow> err option \<times> kvOutput" where
  "kvOutput_Connect env kv =
     (if kv_natsConn kv \<noteq> None then (None, kv)
      else
        (case nats_Connect env (kv_urls kv) of
           Inl e \<Rightarrow> (Some e, kv)
         | Inr natsConn \<Rightarrow>
             (case conn_JetStream env natsConn of
                Inl e \<Rightarrow> (Some e, kv\<lparr>kv_closed := kv_closed kv @ [natsConn]\<rparr>)
              | Inr jsc \<Rightarrow>
                  (case js_KeyValue env jsc (kv_bucket kv) of
                     (h, Some e) \<Rightarrow>
                       (Some e, kv\<lparr>kv_keyValue := h, kv_closed := kv_closed kv @ [natsConn]\<rparr>)
                   | (h, None) \<Rightarrow>
                       (None, kv\<lparr>kv_keyValue := h,
                                  kv_log := kv_log kv @
                                    [''Setting values on NATS KV bucket: '' @ kv_bucket kv @
                                     '' and key: '' @ kv_keyRaw kv],
                                  kv_natsConn := Some natsConn\<rparr>)))))"

subsection \<open>NATS JetStream output (output\_jetstream.go, jetStreamOutput.Connect)\<close>

record jetStreamOutput =
  js_urls :: string
  js_subjectStrRaw :: string
  js_natsConn :: "nat option"
  js_jCtx :: "nat option"
  js_log :: "string list"
  js_closed :: "nat list"

definition jetStreamOutput_Connect ::
  "nats_env \<Rightarrow> jetStreamOutput \<Rightarrow> err option \<times> jetStreamOutput" where
  "jetStreamOutput_Connect env j =
     (if js_natsConn j \<noteq> None then (None, j)
      else
        (case nats_Connect env (js_urls j) of
           Inl e \<Rightarrow> (Some e, j)
         | Inr natsConn \<Rightarrow>
             (case conn_JetStream env natsConn of
                Inl e \<Rightarrow> (Some e, j\<lparr>js_closed := js_closed j @ [natsConn]\<rparr>)
              | Inr jCtx \<Rightarrow>
                  (None, j\<lparr>js_log := js_log j @
                               [''Sending NATS messages to JetStream subject: '' @ js_subjectStrRaw j],
                             js_natsConn := Some natsConn,
                             js_jCtx := Some jCtx\<rparr>))))"

subsection \<open>Kinesis reader (kinesisReader.Connect)\<close>

text \<open>
  The reader counts as connected once \<^verbatim>\<open>k.msgChan\<close> is not \<^verbatim>\<open>nil\<close>. Connect builds
  the service client and the checkpointer, makes the channel, waits for the streams and
  starts one of the two shard runners as a goroutine (\<open>kr_spawned\<close>).
\<close>

datatype runner = RunExplicitShards | RunBalancedShards

record kinesis_env =
  newAWSKinesisCheckpointer :: "string \<Rightarrow> err + nat"
  waitUntilStreamsExists :: "string list \<Rightarrow> err option"

record kinesisReader =
  kr_clientID :: string
  kr_sess :: nat
  kr_svc :: "nat option"
  kr_checkpointer :: "nat option"
  kr_streamShards :: "(string \<times> string list) list"
  kr_balancedStreams :: "string list"
  kr_msgChan :: "nat option"
  kr_spawned :: "runner list"

definition kinesis_New :: "nat \<Rightarrow> nat" where
  "kinesis_New sess = sess"

definition kinesisReader_Connect ::
  "kinesis_env \<Rightarrow> kinesisReader \<Rightarrow> err option \<times> kinesisReader" where
  "kinesisReader_Connect env k =
     (if kr_msgChan k \<noteq> None then (None, k)
      else
        (case newAWSKinesisCheckpointer env (kr_clientID k) of
           Inl e \<Rightarrow> (Some e, k)
         | Inr checkpointer \<Rightarrow>
             (let k1 = k\<lparr>kr_svc := Some (kinesis_New (kr_sess k)),
                          kr_checkpointer := Some checkpointer,
                          kr_msgChan := Some 0\<rparr>
              in case waitUntilStreamsExists env
                        (kr_balancedStreams k1 @ map fst (kr_streamShards k1)) of
                   Some e \<Rightarrow> (Some e, k1)
                 | None \<Rightarrow>
                     (if length (kr_streamShards k1) > 0
                      then (None, k1\<lparr>kr_spawned := kr_spawned k1 @ [RunExplicitShards]\<rparr>)
                      else (None, k1\<lparr>kr_spawned := kr_spawned k1 @ [RunBalancedShards]\<rparr>)))))"

section \<open>Connect is idempotent\<close>

text \<open>
  The four drivers above guard Connect by their connection handle. (Two other inputs
  of the repository, the GCS input and the Postgres CDC input, have a Connect without
  such a guard, which builds a new client on every call; they are not modelled here.)
\<close>

lemma sqsWriter_Connect_connects: "sqs (snd (sqsWriter_Connect a)) \<noteq> None"
  by (simp add: sqsWriter_Connect_def)

lemma kvOutput_Connect_connects:
  "fst (kvOutput_Connect env kv) = None \<Longrightarrow> kv_natsConn (snd (kvOutput_Connect env kv)) \<noteq> None"
  by (auto simp: kvOutput_Connect_def split: sum.splits prod.splits option.splits if_splits)

lemma jetStreamOutput_Connect_connects:
  "fst (jetStreamOutput_Connect env j) = None \<Longrightarrow>
   js_natsConn (snd (jetStreamOutput_Connect env j)) \<noteq> None"
  by (auto simp: jetStreamOutput_Connect_def split: sum.splits if_splits)

lemma kinesisReader_Connect_connects:
  "fst (kinesisReader_Connect env k) = None \<Longrightarrow>
   kr_msgChan (snd (kinesisReader_Connect env k)) \<noteq> None"
  by (auto simp: kinesisReader_Connect_def Let_def split: sum.splits option.splits if_splits)

text \<open>
  C9. For each of the four drivers (NATS KV output, NATS JetStream output, Kinesis
  reader, SQS writer), Connect on a component that is already connected (its connection
  handle is not nil) returns nil and leaves the whole component state, log included, as
  it was, whatever the collaborators would have answered. So a Connect that follows a
  successful Connect changes nothing: Connect is idempotent.
\<close>

theorem C9_Connect_idempotent:
  "(sqs a \<noteq> None \<longrightarrow> sqsWriter_Connect a = (None, a)) \<and>
   (kv_natsConn kv \<noteq> None \<longrightarrow> kvOutput_Connect nenv kv = (None, kv)) \<and>
   (js_natsConn j \<noteq> None \<longrightarrow> jetStreamOutput_Connect nenv j = (None, j)) \<and>
   (kr_msgChan k \<noteq> None \<longrightarrow> kinesisReader_Connect kenv k = (None, k)) \<and>
   sqsWriter_Connect (snd (sqsWriter_Connect a)) = (None, snd (sqsWriter_Connect a)) \<and>
   (fst (kvOutput_Connect nenv kv) = None \<longrightarrow>
      kvOutput_Connect nenv2 (snd (kvOutput_Connect nenv kv)) =
        (None, snd (kvOutput_Connect nenv kv))) \<and>
   (fst (jetStreamOutput_Connect nenv j) = None \<longrightarrow>
      jetStreamOutput_Connect nenv2 (snd (jetStreamOutput_Connect nenv j)) =
        (None, snd (jetStreamOutput_Connect nenv j))) \<and>
   (fst (kinesisReader_Connect kenv k) = None \<longrightarrow>
      kinesisReader_Connect kenv2 (snd (kinesisReader_Connect kenv k)) =
        (None, snd (kinesisReader_Connect kenv k)))"
proof -
  have guard_sqs: "sqs x \<noteq> None \<Longrightarrow> sqsWriter_Connect x = (None, x)" for x
    by (simp add: sqsWriter_Connect_def)
  have guard_kv: "kv_natsConn x \<noteq> None \<Longrightarrow> kvOutput_Connect e x = (None, x)" for x e
    by (simp add: kvOutput_Connect_def)
  have guard_js: "js_natsConn x \<noteq> None \<Longrightarrow> jetStreamOutput_Connect e x = (None, x)" for x e
    by (simp add: jetStreamOutput_Connect_def)
  have guard_kr: "kr_msgChan x \<noteq> None \<Longrightarrow> kinesisReader_Connect e x = (None, x)" for x e
    by (simp add: kinesisReader_Connect_def)
  show ?thesis
    using guard_sqs [of a] guard_kv [of kv nenv] guard_js [of j nenv] guard_kr [of k kenv]
      guard_sqs [OF sqsWriter_Connect_connects, of a]
      guard_kv [OF kvOutput_Connect_connects, of nenv kv nenv2]
      guard_js [OF jetStreamOutput_Connect_connects, of nenv j nenv2]
      guard_kr [OF kinesisReader_Connect_connects, of kenv k kenv2]
    by blast
qed

text \<open>
  Concrete components: each one is connected, and each collaborator would refuse a
  new connection, so a Connect that consulted it would return an error.
\<close>

definition refusing_nats :: nats_env where
  "refusing_nats = \<lparr>nats_Connect = (\<lambda>u. Inl (Upstream ''nats: no servers available'')),
                     conn_JetStream = (\<lambda>c. Inl (Upstream ''nats: no jetstream'')),
                     js_KeyValue = (\<lambda>c b. (None, Some (Upstream ''nats: bucket not found'')))\<rparr>"

definition refusing_kinesis :: kinesis_env where
  "refusing_kinesis = \<lparr>newAWSKinesisCheckpointer = (\<lambda>c. Inl (Upstream ''no table'')),
                        waitUntilStreamsExists = (\<lambda>ss. Some (Upstream ''no stream''))\<rparr>"

definition connected_sqs :: sqsWriter where
  "connected_sqs = \<lparr>sqs_session = 7, sqs_URL = ''https://sqs/q'', sqs = Some 7, sqs_log = []\<rparr>"

definition connected_kv :: kvOutput where
  "connected_kv = \<lparr>kv_urls = ''nats://127.0.0.1:4222'', kv_bucket = ''b'', kv_keyRaw = ''k'',
                    kv_natsConn = Some 1, kv_keyValue = Some 2, kv_log = [], kv_closed = []\<rparr>"

definition connected_js :: jetStreamOutput where
  "connected_js = \<lparr>js_urls = ''nats://127.0.0.1:4222'', js_subjectStrRaw = ''s'',
                    js_natsConn = Some 1, js_jCtx = Some 2, js_log = [], js_closed = []\<rparr>"

definition connected_kinesis :: kinesisReader where
  "connected_kinesis = \<lparr>kr_clientID = ''c1'', kr_sess = 3, kr_svc = Some 3,
                         kr_checkpointer = Some 4, kr_streamShards = [],
                         kr_balancedStreams = [''foo''], kr_msgChan = Some 0,
                         kr_spawned = [RunBalancedShards]\<rparr>"

text \<open>
  The theorem at these components: none of the refusing collaborators is consulted.
\<close>

theorem C9_Connect_idempotent_witness:
  "sqsWriter_Connect connected_sqs = (None, connected_sqs) \<and>
   kvOutput_Connect refusing_nats connected_kv = (None, connected_kv) \<and>
   jetStreamOutput_Connect refusing_nats connected_js = (None, connected_js) \<and>
   kinesisReader_Connect refusing_kinesis connected_kinesis = (None, connected_kinesis)"
  using C9_Connect_idempotent [where a = connected_sqs and kv = connected_kv
      and nenv = refusing_nats and j = connected_js and k = connected_kinesis
      and kenv = refusing_kinesis]
  by (simp add: connected_sqs_def connected_kv_def connected_js_def connected_kinesis_def)

section \<open>Balanced shards: one rebalance pass (kinesisReader.runBalancedShards)\<close>

text \<open>
  One iteration of the inner \<^verbatim>\<open>for _, streamID := range k.balancedStreams\<close> loop, after
  \<^verbatim>\<open>ListShards\<close> and \<^verbatim>\<open>AllClaims\<close> have answered. Go maps are iterated in an
  unspecified order; a map is an association list here and its order is the order
  of iteration, so a statement for every list is a statement for every order.
  Times and durations are integers (nanoseconds). A \<^verbatim>\<open>time.Duration\<close> is an
  \<^verbatim>\<open>int64\<close>: \<^verbatim>\<open>k.leasePeriod*2\<close> wraps around, and \<^verbatim>\<open>time.Since\<close> (a \<^verbatim>\<open>Time.Sub\<close>)
  gives the largest or the smallest duration when the difference does not fit.
\<close>

definition int64_wrap :: "int \<Rightarrow> int" where
  "int64_wrap x = (x + 2 ^ 63) mod 2 ^ 64 - 2 ^ 63"

definition Duration_saturate :: "int \<Rightarrow> int" where
  "Duration_saturate x = max (- (2 ^ 63)) (min (2 ^ 63 - 1) x)"

definition time_Since :: "int \<Rightarrow> int \<Rightarrow> int" where
  "time_Since now t = Duration_saturate (now - t)"

record awsKinesisClientClaim =
  ShardID :: string
  LeaseTimeout :: int

record kinesis_Shard =
  ShardId :: string
  EndingSequenceNumber :: "string option option"

text \<open>
  \<open>EndingSequenceNumber\<close> is \<open>None\<close> when \<^verbatim>\<open>SequenceNumberRange\<close> is nil,
  \<open>Some None\<close> when the range has no ending sequence number.
\<close>

definition isShardFinished :: "kinesis_Shard \<Rightarrow> bool" where
  "isShardFinished s =
     (case EndingSequenceNumber s of
        None \<Rightarrow> False
      | Some None \<Rightarrow> False
      | Some (Some e) \<Rightarrow> e \<noteq> ''null'')"

definition unclaimed_of_shards :: "kinesis_Shard list \<Rightarrow> (string \<times> string) list" where
  "unclaimed_of_shards shards =
     fold (\<lambda>s m. if \<not> isShardFinished s then AList.update (ShardId s) [] m else m) shards []"

definition unclaimed_after_claims ::
  "int \<Rightarrow> int \<Rightarrow> string \<Rightarrow> awsKinesisClientClaim list \<Rightarrow> (string \<times> string) list
   \<Rightarrow> (string \<times> string) list" where
  "unclaimed_after_claims now leasePeriod clientID claims m =
     fold (\<lambda>claim m. if time_Since now (LeaseTimeout claim) > int64_wrap (leasePeriod * 2)
                      then AList.update (ShardID claim) clientID m
                      else AList.delete (ShardID claim) m) claims m"

definition unclaimedShards ::
  "int \<Rightarrow> int \<Rightarrow> kinesis_Shard list \<Rightarrow> (string \<times> awsKinesisClientClaim list) list
   \<Rightarrow> (string \<times> string) list" where
  "unclaimedShards now leasePeriod shards clientClaims =
     fold (\<lambda>(clientID, claims) m. unclaimed_after_claims now leasePeriod clientID claims m)
       clientClaims (unclaimed_of_shards shards)"

text \<open>
  The checkpointer's \<^verbatim>\<open>Claim\<close>, \<^verbatim>\<open>runConsumer\<close>, \<^verbatim>\<open>rand.Int()\<close> and the context are
  the environment of the pass. Each is a function of the number of \<^verbatim>\<open>Claim\<close> calls
  made so far in the pass, so any sequence of answers can be given.
\<close>

datatype claim_result = Claimed string | ErrLeaseNotAcquired | ClaimFailed string

record rebalance_env =
  Claim :: "nat \<Rightarrow> string \<Rightarrow> string \<Rightarrow> claim_result"
  runConsumer :: "nat \<Rightarrow> string \<Rightarrow> string \<Rightarrow> err option"
  rand_Int :: "nat \<Rightarrow> nat"
  ctx_Err :: "nat \<Rightarrow> bool"

text \<open>What a pass does, in order: the claims it attempts and the consumers it starts.\<close>

datatype rb_event =
    ClaimAttempt string string
  | StealAttempt string string
  | RunConsumer string string "err option"

text \<open>\<open>emit es p\<close> puts the events \<open>es\<close> before those of the rest of the loop.\<close>

definition emit :: "rb_event list \<Rightarrow> rb_event list \<times> bool \<Rightarrow> rb_event list \<times> bool" where
  "emit es p = (es @ fst p, snd p)"

text \<open>
  The loop over the unclaimed shards. The second component of the result is \<open>True\<close>
  when the function returned because the reader's context was cancelled.
\<close>

fun claim_unclaimed ::
  "rebalance_env \<Rightarrow> nat \<Rightarrow> (string \<times> string) list \<Rightarrow> rb_event list \<times> bool" where
  "claim_unclaimed env n [] = ([], False)"
| "claim_unclaimed env n ((shardID, clientID) # rest) =
     (case Claim env n shardID clientID of
        Claimed sequence \<Rightarrow>
          emit [ClaimAttempt shardID clientID,
                RunConsumer shardID sequence (runConsumer env n shardID sequence)]
            (claim_unclaimed env (Suc n) rest)
      | _ \<Rightarrow>
          (if ctx_Err env n then ([ClaimAttempt shardID clientID], True)
           else emit [ClaimAttempt shardID clientID] (claim_unclaimed env (Suc n) rest)))"

text \<open>
  The loop that looks for a shard to steal: \<^verbatim>\<open>len(claims) > (selfClaims + 1)\<close> decides,
  \<^verbatim>\<open>claims[(rand.Int() % len(claims))].ShardID\<close> picks. A theft whose consumer started
  ends the loop (\<^verbatim>\<open>break\<close>).
\<close>

fun steal_loop ::
  "rebalance_env \<Rightarrow> string \<Rightarrow> nat \<Rightarrow> nat \<Rightarrow> (string \<times> awsKinesisClientClaim list) list
   \<Rightarrow> rb_event list \<times> bool" where
  "steal_loop env self selfClaims n [] = ([], False)"
| "steal_loop env self selfClaims n ((clientID, claims) # rest) =
     (if clientID = self then steal_loop env self selfClaims n rest
      else if length claims > selfClaims + 1 then
        (let randomShard = ShardID (claims ! (rand_Int env n mod length claims))
         in case Claim env n randomShard clientID of
              Claimed sequence \<Rightarrow>
                (case runConsumer env n randomShard sequence of
                   Some e \<Rightarrow>
                     emit [StealAttempt randomShard clientID,
                           RunConsumer randomShard sequence (Some e)]
                       (steal_loop env self selfClaims (Suc n) rest)
                 | None \<Rightarrow>
                     ([StealAttempt randomShard clientID,
                       RunConsumer randomShard sequence None], False))
            | _ \<Rightarrow>
                (if ctx_Err env n then ([StealAttempt randomShard clientID], True)
                 else emit [StealAttempt randomShard clientID]
                        (steal_loop env self selfClaims (Suc n) rest)))
      else steal_loop env self selfClaims n rest)"

text \<open>\<^verbatim>\<open>len(clientClaims[k.clientID])\<close>: a missing key gives the nil slice, of length 0.\<close>

definition selfClaims :: "(string \<times> awsKinesisClientClaim list) list \<Rightarrow> string \<Rightarrow> nat" where
  "selfClaims clientClaims self =
     (case map_of clientClaims self of None \<Rightarrow> 0 | Some claims \<Rightarrow> length claims)"

definition rebalance_stream ::
  "rebalance_env \<Rightarrow> string \<Rightarrow> int \<Rightarrow> int \<Rightarrow> kinesis_Shard list
   \<Rightarrow> (string \<times> awsKinesisClientClaim list) list \<Rightarrow> rb_event list \<times> bool" where
  "rebalance_stream env self now leasePeriod shards clientClaims =
     (let unclaimed = unclaimedShards now leasePeriod shards clientClaims
      in if length unclaimed > 0 then claim_unclaimed env 0 unclaimed
         else steal_loop env self (selfClaims clientClaims self) 0 clientClaims)"

section \<open>The steal threshold\<close>

lemma fst_emit: "fst (emit es p) = es @ fst p"
  by (simp add: emit_def)

lemma claim_unclaimed_no_steal:
  "StealAttempt shard client \<notin> set (fst (claim_unclaimed env n us))"
  by (induction us arbitrary: n)
     (auto simp: fst_emit split: claim_result.splits if_splits)

lemma steal_loop_attempt:
  "StealAttempt shard client \<in> set (fst (steal_loop env self sc n cc)) \<Longrightarrow>
   client \<noteq> self \<and>
   (\<exists>claims m. (client, claims) \<in> set cc \<and> sc + 1 < length claims \<and>
      shard = ShardID (claims ! (rand_Int env m mod length claims)))"
proof (induction cc arbitrary: n)
  case Nil
  then show ?case by simp
next
  case (Cons a cc)
  obtain c cl where a: "a = (c, cl)" by (cases a)
  let ?goal = "client \<noteq> self \<and>
          (\<exists>claims m. (client, claims) \<in> set (a # cc) \<and> sc + 1 < length claims \<and>
             shard = ShardID (claims ! (rand_Int env m mod length claims)))"
  have later: ?goal
    if "StealAttempt shard client \<in> set (fst (steal_loop env self sc k cc))" for k
    using Cons.IH [OF that] by auto
  show ?case
  proof (cases "c = self \<or> \<not> length cl > sc + 1")
    case True
    with Cons.prems a
    have "StealAttempt shard client \<in> set (fst (steal_loop env self sc n cc))"
      by (auto split: if_splits)
    then show ?thesis by (rule later)
  next
    case False
    let ?s = "ShardID (cl ! (rand_Int env n mod length cl))"
    have here: ?goal if "shard = ?s" "client = c"
      using that a False by auto
    from Cons.prems a False
    have "(shard = ?s \<and> client = c) \<or>
          StealAttempt shard client \<in> set (fst (steal_loop env self sc (Suc n) cc))"
      by (auto simp: Let_def fst_emit split: claim_result.splits option.splits if_splits)
    then show ?thesis using here later by blast
  qed
qed

text \<open>
  C1 (as amended). In a rebalance pass, a theft is attempted only when no unclaimed
  shard was found, only from another client, and only when this instance holds
  strictly fewer shards than that client's holdings minus one (the client holds at
  least two more); the shard is the one of that client's claims at index
  \<^verbatim>\<open>rand.Int() % len(claims)\<close>.
\<close>

theorem C1_steal_threshold:
  assumes "StealAttempt shard client \<in> set (fst (rebalance_stream env self now leasePeriod shards clientClaims))"
  shows "unclaimedShards now leasePeriod shards clientClaims = [] \<and> client \<noteq> self \<and>
     (\<exists>claims m. (client, claims) \<in> set clientClaims \<and>
        int (selfClaims clientClaims self) < int (length claims) - 1 \<and>
        shard = ShardID (claims ! (rand_Int env m mod length claims)) \<and>
        shard \<in> ShardID ` set claims)"
proof -
  have empty: "unclaimedShards now leasePeriod shards clientClaims = []"
  proof (rule ccontr)
    assume "unclaimedShards now leasePeriod shards clientClaims \<noteq> []"
    with assms have "StealAttempt shard client \<in>
        set (fst (claim_unclaimed env 0 (unclaimedShards now leasePeriod shards clientClaims)))"
      by (simp add: rebalance_stream_def Let_def)
    then show False by (simp add: claim_unclaimed_no_steal)
  qed
  with assms have "StealAttempt shard client \<in>
      set (fst (steal_loop env self (selfClaims clientClaims self) 0 clientClaims))"
    by (simp add: rebalance_stream_def Let_def)
  from steal_loop_attempt [OF this]
  obtain claims m where ne: "client \<noteq> self"
    and mem: "(client, claims) \<in> set clientClaims"
    and more: "selfClaims clientClaims self + 1 < length claims"
    and pick: "shard = ShardID (claims ! (rand_Int env m mod length claims))"
    by blast
  from more have "0 < length claims" by linarith
  then have "rand_Int env m mod length claims < length claims" by (rule mod_less_divisor)
  then have "claims ! (rand_Int env m mod length claims) \<in> set claims" by (rule nth_mem)
  with pick have "shard \<in> ShardID ` set claims" by blast
  moreover from more have "int (selfClaims clientClaims self) < int (length claims) - 1" by simp
  ultimately show ?thesis using empty ne mem pick by blast
qed

text \<open>
  A concrete pass: client B holds the two open shards with fresh leases, this instance
  (A) holds none, every claim is granted and \<^verbatim>\<open>rand.Int()\<close> gives 5.
\<close>

definition fresh_claim :: "string \<Rightarrow> awsKinesisClientClaim" where
  "fresh_claim s = \<lparr>ShardID = s, LeaseTimeout = 1000\<rparr>"

definition open_shard :: "string \<Rightarrow> kinesis_Shard" where
  "open_shard s = \<lparr>ShardId = s, EndingSequenceNumber = Some None\<rparr>"

definition granting_env :: rebalance_env where
  "granting_env = \<lparr>Claim = (\<lambda>n shard client. Claimed ''100''),
                    runConsumer = (\<lambda>n shard sequence. None),
                    rand_Int = (\<lambda>n. 5),
                    ctx_Err = (\<lambda>n. False)\<rparr>"

definition two_shards :: "kinesis_Shard list" where
  "two_shards = [open_shard ''s0'', open_shard ''s1'']"

definition other_holds_two :: "(string \<times> awsKinesisClientClaim list) list" where
  "other_holds_two = [(''B'', [fresh_claim ''s0'', fresh_claim ''s1''])]"

lemma other_holds_two_pass:
  "rebalance_stream granting_env ''A'' 1000 30 two_shards other_holds_two =
     ([StealAttempt ''s1'' ''B'', RunConsumer ''s1'' ''100'' None], False)"
  by (simp add: rebalance_stream_def unclaimedShards_def unclaimed_of_shards_def
      unclaimed_after_claims_def time_Since_def Duration_saturate_def int64_wrap_def
      two_shards_def other_holds_two_def open_shard_def
      fresh_claim_def isShardFinished_def granting_env_def selfClaims_def Let_def
      numeral_2_eq_2 [symmetric])

text \<open>
  C1 as stated fails there: A holds 0 shards, B holds 2, and 0 is not below 2 - 2,
  yet A attempts to steal shard s1 from B.
\<close>

theorem C1_minus_two_counterexample:
  "StealAttempt ''s1'' ''B'' \<in>
     set (fst (rebalance_stream granting_env ''A'' 1000 30 two_shards other_holds_two)) \<and>
   unclaimedShards 1000 30 two_shards other_holds_two = [] \<and>
   map_of other_holds_two ''B'' = Some [fresh_claim ''s0'', fresh_claim ''s1''] \<and>
   selfClaims other_holds_two ''A'' = 0 \<and>
   \<not> (int (selfClaims other_holds_two ''A'') <
        int (length [fresh_claim ''s0'', fresh_claim ''s1'']) - 2)"
  by (simp add: other_holds_two_pass)
     (simp add: unclaimedShards_def unclaimed_of_shards_def
      unclaimed_after_claims_def time_Since_def Duration_saturate_def int64_wrap_def
      two_shards_def other_holds_two_def open_shard_def
      fresh_claim_def isShardFinished_def selfClaims_def)

text \<open>
  The theorem at that pass: B holds two shards more than A, and the shard picked is
  one of B's.
\<close>

theorem C1_steal_threshold_witness:
  "unclaimedShards 1000 30 two_shards other_holds_two = [] \<and> ''B'' \<noteq> ''A'' \<and>
     (\<exists>claims m. (''B'', claims) \<in> set other_holds_two \<and>
        int (selfClaims other_holds_two ''A'') < int (length claims) - 1 \<and>
        ''s1'' = ShardID (claims ! (rand_Int granting_env m mod length claims)) \<and>
        ''s1'' \<in> ShardID ` set claims)"
proof -
  have "StealAttempt ''s1'' ''B'' \<in>
     set (fst (rebalance_stream granting_env ''A'' 1000 30 two_shards other_holds_two))"
    by (simp add: other_holds_two_pass)
  from C1_steal_threshold [OF this] show ?thesis .
qed

section \<open>The per-shard consumer (kinesisReader.runConsumer)\<close>

subsection \<open>Shard iterators\<close>

datatype ShardIteratorType = TRIM_HORIZON | LATEST | AFTER_SEQUENCE_NUMBER

record GetShardIteratorInput =
  StreamName :: string
  ShardId_in :: string
  StartingSequenceNumber :: "string option"
  ShardIteratorType :: ShardIteratorType

text \<open>
  \<^verbatim>\<open>awsErrIsTimeout\<close>. The errors of the model wrap nothing, so \<^verbatim>\<open>errors.Is\<close> is
  equality with the sentinel.
\<close>

definition awsErrIsTimeout :: "err \<Rightarrow> bool" where
  "awsErrIsTimeout e =
     (e = ContextCanceled \<or> e = DeadlineExceeded \<or> e = ErrTimeout \<or>
      HasSuffix (Error e) ''context canceled'')"

definition ErrCodeExpiredIteratorException :: string where
  "ErrCodeExpiredIteratorException = ''ExpiredIteratorException''"

text \<open>
  \<^verbatim>\<open>err.(awserr.Error)\<close> succeeds with that code.
\<close>

fun isExpiredIterator :: "err \<Rightarrow> bool" where
  "isExpiredIterator (AwsError code message) = (code = ErrCodeExpiredIteratorException)"
| "isExpiredIterator _ = False"

subsection \<open>The environment of one consumer\<close>

text \<open>
  The Kinesis service, the DynamoDB checkpointer, the back-off and the record batcher
  (\<^verbatim>\<open>awsKinesisRecordBatcher\<close>, whose state is the type \<open>'b\<close>) are collaborators: the
  consumer is a function of what they answer. A service answer is a function of a
  call number, so that two calls with equal arguments may differ. \<open>select\<close> names the
  case of the \<^verbatim>\<open>select\<close> statement that fires in each iteration of the loop.
  A record is its data, a message batch is a list of them; \<^verbatim>\<open>asyncMessage.msg\<close> is
  \<open>None\<close> when nil.
\<close>

datatype select_event =
    CommitDone bool
  | TimedBatch
  | FlushSent
  | PullReady
  | CtxDone

text \<open>\<open>CommitDone cancelled\<close>: \<^verbatim>\<open>commitCtx.Done()\<close> fired, and \<open>cancelled\<close> tells whether
  \<^verbatim>\<open>k.ctx.Err() != nil\<close> then.\<close>

record 'b consumer_env =
  StartFromOldest :: bool
  GetShardIterator :: "nat \<Rightarrow> GetShardIteratorInput \<Rightarrow> err + string option"
  GetRecords :: "nat \<Rightarrow> string \<Rightarrow> err + (string list \<times> string option)"
  NextBackOff :: "nat \<Rightarrow> nat"
  AddRecord :: "string \<Rightarrow> 'b \<Rightarrow> bool \<times> 'b"
  FlushMessage :: "nat \<Rightarrow> 'b \<Rightarrow> (string list option \<times> err option) \<times> 'b"
  HasPendingMessage :: "'b \<Rightarrow> bool"
  GetSequence :: "'b \<Rightarrow> string"
  UntilNext :: "'b \<Rightarrow> nat option"
  checkpoint_answer :: "nat \<Rightarrow> string \<Rightarrow> bool \<times> err option"
  select :: "nat \<Rightarrow> select_event"

text \<open>
  \<^verbatim>\<open>getIter\<close>. Its first request asks for the iterator after \<open>sequence\<close> when there
  is one, and otherwise for the oldest or the latest record as configured.
\<close>

definition firstIterInput ::
  "'b consumer_env \<Rightarrow> string \<Rightarrow> string \<Rightarrow> string \<Rightarrow> GetShardIteratorInput" where
  "firstIterInput env streamID shardID sequence =
     (let iterType = (if \<not> StartFromOldest env then LATEST else TRIM_HORIZON);
          iterType = (if length sequence > 0 then AFTER_SEQUENCE_NUMBER else iterType);
          startingSequence = (if length sequence > 0 then Some sequence else None)
      in \<lparr>StreamName = streamID, ShardId_in = shardID,
          StartingSequenceNumber = startingSequence,
          ShardIteratorType = iterType\<rparr>)"

text \<open>
  Its second request, made when the service answered the first with no iterator
  (\<^emph>\<open>if we failed to obtain from a sequence we start from beginning\<close>), asks for the
  oldest record of the shard.
\<close>

definition trimHorizonInput :: "string \<Rightarrow> string \<Rightarrow> GetShardIteratorInput" where
  "trimHorizonInput streamID shardID =
     \<lparr>StreamName = streamID, ShardId_in = shardID,
      StartingSequenceNumber = None,
      ShardIteratorType = TRIM_HORIZON\<rparr>"

text \<open>
  \<open>c\<close> numbers the service call; the retry from the trim horizon is call \<open>Suc c\<close>.
\<close>

definition getIter ::
  "'b consumer_env \<Rightarrow> nat \<Rightarrow> string \<Rightarrow> string \<Rightarrow> string \<Rightarrow> err + string" where
  "getIter env c streamID shardID sequence =
     (case GetShardIterator env c (firstIterInput env streamID shardID sequence) of
        Inl e \<Rightarrow> Inl e
      | Inr res \<Rightarrow>
          (let iter = (case res of None \<Rightarrow> [] | Some it \<Rightarrow> it)
           in if iter = [] then
                (case GetShardIterator env (Suc c) (trimHorizonInput streamID shardID) of
                   Inl e \<Rightarrow> Inl e
                 | Inr res2 \<Rightarrow>
                     (let iter2 = (case res2 of None \<Rightarrow> [] | Some it \<Rightarrow> it)
                      in if iter2 = [] then Inl (Upstream ''failed to obtain shard iterator'')
                         else Inr iter2))
              else Inr iter))"

text \<open>
  \<^verbatim>\<open>getRecords\<close>: on an error the iterator returned is the one passed in.
\<close>

definition getRecords ::
  "'b consumer_env \<Rightarrow> nat \<Rightarrow> string \<Rightarrow> string list \<times> string \<times> err option" where
  "getRecords env n shardIter =
     (case GetRecords env n shardIter of
        Inl e \<Rightarrow> ([], shardIter, Some e)
      | Inr (records, next) \<Rightarrow>
          (records, (case next of None \<Rightarrow> [] | Some it \<Rightarrow> it), None))"

subsection \<open>The state of the goroutine\<close>

datatype awsKinesisConsumerState = Consuming | Yielding | Finished | Closing

text \<open>
  \<^verbatim>\<open>nextPullChan\<close> is the closed channel, the channel nobody writes to, or a timer.
\<close>

datatype pull_chan = unblockedChan | blockedChan | After nat

datatype checkpointer_call =
    Delete string string
  | Yield string string string
  | Checkpoint string string string bool

record 'b consumer =
  streamID :: string
  shardID :: string
  state :: awsKinesisConsumerState
  pending :: "string list"
  iter :: string
  pendingMsg :: "string list option"
  nextPullChan :: pull_chan
  nextTimedBatchChan :: "nat option"
  recordBatcher :: 'b
  boff :: nat
  calls :: "checkpointer_call list"

text \<open>
  \<open>boff\<close> counts the calls of \<^verbatim>\<open>NextBackOff\<close> since the last \<^verbatim>\<open>Reset\<close>; \<open>calls\<close>
  is the list of calls made to the checkpointer so far. Log lines are not modelled.
\<close>

definition nextBackOff :: "'b consumer_env \<Rightarrow> 'b consumer \<Rightarrow> 'b consumer" where
  "nextBackOff env c = c\<lparr>nextPullChan := After (NextBackOff env (boff c)), boff := Suc (boff c)\<rparr>"

definition unblockPullChan :: "'b consumer \<Rightarrow> 'b consumer" where
  "unblockPullChan c =
     (if nextPullChan c = blockedChan then c\<lparr>nextPullChan := unblockedChan\<rparr> else c)"

text \<open>The first block of the loop body: pulling records.\<close>

definition pull :: "'b consumer_env \<Rightarrow> nat \<Rightarrow> 'b consumer \<Rightarrow> 'b consumer" where
  "pull env n c =
     (if state c = Consuming \<and> length (pending c) = 0 \<and> nextPullChan c = unblockedChan then
        (let c1 =
           (case getRecords env n (iter c) of
              (recs, it, Some e) \<Rightarrow>
                (let c0 = c\<lparr>pending := recs, iter := it\<rparr>
                 in if \<not> awsErrIsTimeout e then
                      (let cb = nextBackOff env c0
                       in if isExpiredIterator e then
                            (case getIter env (2 * n) (streamID c) (shardID c)
                                    (GetSequence env (recordBatcher c)) of
                               Inl e2 \<Rightarrow> cb
                             | Inr newIter \<Rightarrow> cb\<lparr>iter := newIter\<rparr>)
                          else cb)
                    else c0)
            | (recs, it, None) \<Rightarrow>
                (let c0 = c\<lparr>pending := recs, iter := it\<rparr>
                 in if length recs = 0 then nextBackOff env c0
                    else c0\<lparr>boff := 0, nextPullChan := blockedChan\<rparr>))
         in if iter c1 = [] then c1\<lparr>state := Finished\<rparr> else c1)
      else unblockPullChan c)"

text \<open>
  The \<^verbatim>\<open>for i, r = range pending\<close> loop: records are added until the batcher asks
  for a flush; what is left of \<^verbatim>\<open>pending\<close> is \<^verbatim>\<open>pending[i+1:]\<close>.
\<close>

fun addRecords ::
  "'b consumer_env \<Rightarrow> nat \<Rightarrow> 'b \<Rightarrow> string list \<Rightarrow> 'b \<times> string list option \<times> string list" where
  "addRecords env n b [] = (b, None, [])"
| "addRecords env n b (r # rs) =
     (case AddRecord env r b of
        (True, b1) \<Rightarrow> (case FlushMessage env n b1 of ((m, e), b2) \<Rightarrow> (b2, m, rs))
      | (False, b1) \<Rightarrow> addRecords env n b1 rs)"

text \<open>
  The second block: preparing the next message. \<open>Inl\<close> is the \<^verbatim>\<open>return\<close> of a finished
  consumer with nothing left to flush.
\<close>

definition prepare :: "'b consumer_env \<Rightarrow> nat \<Rightarrow> 'b consumer \<Rightarrow> 'b consumer + 'b consumer" where
  "prepare env n c =
     (if pendingMsg c = None then
        (if length (pending c) = 0 \<and> state c = Finished then
           (case FlushMessage env n (recordBatcher c) of
              ((m, e), b) \<Rightarrow>
                (if m = None then Inl (c\<lparr>pendingMsg := m, recordBatcher := b\<rparr>)
                 else Inr (c\<lparr>pendingMsg := m, recordBatcher := b\<rparr>)))
         else if HasPendingMessage env (recordBatcher c) then
           (case FlushMessage env n (recordBatcher c) of
              ((m, e), b) \<Rightarrow> Inr (c\<lparr>pendingMsg := m, recordBatcher := b\<rparr>))
         else if length (pending c) > 0 then
           (case addRecords env n (recordBatcher c) (pending c) of
              (b, m, rest) \<Rightarrow>
                (let c1 = c\<lparr>pendingMsg := m, recordBatcher := b, pending := rest\<rparr>
                 in Inr (if length rest = 0 then unblockPullChan c1 else c1)))
         else Inr (unblockPullChan c))
      else Inr c)"

text \<open>\<^verbatim>\<open>nextTimedBatchChan\<close> is armed when it is nil and the batcher has a period.\<close>

definition armTimedBatch :: "'b consumer_env \<Rightarrow> 'b consumer \<Rightarrow> 'b consumer" where
  "armTimedBatch env c =
     (if nextTimedBatchChan c = None
      then c\<lparr>nextTimedBatchChan := UntilNext env (recordBatcher c)\<rparr>
      else c)"

text \<open>
  The \<^verbatim>\<open>select\<close>. The result is \<open>None\<close> when the named case cannot fire (a receive
  from a nil channel or from \<^verbatim>\<open>blockedChan\<close>, a send on a nil channel), \<open>Some (Inl c)\<close>
  when the goroutine returns and \<open>Some (Inr c)\<close> when the loop goes on.
\<close>

definition wait ::
  "'b consumer_env \<Rightarrow> nat \<Rightarrow> 'b consumer \<Rightarrow> ('b consumer + 'b consumer) option" where
  "wait env n c =
     (case select env n of
        CommitDone cancelled \<Rightarrow>
          (if cancelled then Some (Inl (c\<lparr>state := Closing\<rparr>))
           else
             (let sequence = GetSequence env (recordBatcher c);
                  c1 = c\<lparr>calls := calls c @ [Checkpoint (streamID c) (shardID c) sequence False]\<rparr>
              in case checkpoint_answer env n sequence of
                   (stillOwned, Some e) \<Rightarrow> Some (Inr c1)
                 | (stillOwned, None) \<Rightarrow>
                     (if \<not> stillOwned then Some (Inl (c1\<lparr>state := Yielding\<rparr>))
                      else Some (Inr c1))))
      | TimedBatch \<Rightarrow>
          (if nextTimedBatchChan c = None then None
           else Some (Inr (c\<lparr>nextTimedBatchChan := None\<rparr>)))
      | FlushSent \<Rightarrow>
          (if pendingMsg c = None then None else Some (Inr (c\<lparr>pendingMsg := None\<rparr>)))
      | PullReady \<Rightarrow>
          (if nextPullChan c = blockedChan then None
           else Some (Inr (c\<lparr>nextPullChan := unblockedChan\<rparr>)))
      | CtxDone \<Rightarrow> Some (Inl (c\<lparr>state := Closing\<rparr>)))"

text \<open>
  The loop, for at most \<open>fuel\<close> iterations; \<open>n\<close> numbers the iteration. \<open>None\<close>: the
  goroutine has not returned within \<open>fuel\<close> iterations, or the environment named a
  case that cannot fire. \<open>Some c\<close>: the goroutine returned in state \<open>c\<close>.
\<close>

fun consumer_loop :: "nat \<Rightarrow> 'b consumer_env \<Rightarrow> nat \<Rightarrow> 'b consumer \<Rightarrow> 'b consumer option" where
  "consumer_loop 0 env n c = None"
| "consumer_loop (Suc fuel) env n c =
     (case prepare env n (pull env n c) of
        Inl c1 \<Rightarrow> Some c1
      | Inr c1 \<Rightarrow>
          (case wait env n (armTimedBatch env c1) of
             None \<Rightarrow> None
           | Some (Inl c2) \<Rightarrow> Some c2
           | Some (Inr c2) \<Rightarrow> consumer_loop fuel env (Suc n) c2))"

text \<open>
  The deferred function of the goroutine: what it asks of the checkpointer on the way
  out, by the state the consumer is in.
\<close>

definition exit_calls :: "'b consumer_env \<Rightarrow> 'b consumer \<Rightarrow> checkpointer_call list" where
  "exit_calls env c =
     (case state c of
        Finished \<Rightarrow> [Delete (streamID c) (shardID c)]
      | Yielding \<Rightarrow>
          [Yield (streamID c) (shardID c) (GetSequence env (recordBatcher c))]
      | Closing \<Rightarrow>
          [Checkpoint (streamID c) (shardID c) (GetSequence env (recordBatcher c)) True]
      | Consuming \<Rightarrow> [])"

text \<open>
  The goroutine started by \<^verbatim>\<open>runConsumer\<close>: it starts in the state Consuming with the
  pull channel unblocked, runs the loop, and on return runs the deferred function.
  The result is the state at return and the checkpointer calls of the deferred function.
\<close>

definition consumer_start :: "string \<Rightarrow> string \<Rightarrow> string \<Rightarrow> 'b \<Rightarrow> 'b consumer" where
  "consumer_start stream shard it b =
     \<lparr>streamID = stream, shardID = shard, state = Consuming, pending = [], iter = it,
      pendingMsg = None, nextPullChan = unblockedChan, nextTimedBatchChan = None,
      recordBatcher = b, boff = 0, calls = []\<rparr>"

definition consumer_goroutine ::
  "nat \<Rightarrow> 'b consumer_env \<Rightarrow> string \<Rightarrow> string \<Rightarrow> string \<Rightarrow> 'b
   \<Rightarrow> ('b consumer \<times> checkpointer_call list) option" where
  "consumer_goroutine fuel env stream shard it b =
     (case consumer_loop fuel env 0 (consumer_start stream shard it b) of
        None \<Rightarrow> None
      | Some c \<Rightarrow> Some (c, exit_calls env c))"

section \<open>Exit of the consumer goroutine\<close>

definition running :: "string \<Rightarrow> string \<Rightarrow> 'b consumer \<Rightarrow> bool" where
  "running stream shard c =
     (streamID c = stream \<and> shardID c = shard \<and>
      (state c = Consuming \<or> (state c = Finished \<and> iter c = [])))"

lemma running_unblockPullChan:
  "running stream shard c \<Longrightarrow> running stream shard (unblockPullChan c)"
  by (simp add: running_def unblockPullChan_def)

lemma running_nextBackOff:
  "running stream shard (nextBackOff env c) = running stream shard c"
  by (simp add: running_def nextBackOff_def)

lemma running_pull:
  assumes "running stream shard c"
  shows "running stream shard (pull env n c)"
proof (cases "state c = Consuming \<and> pending c = [] \<and> nextPullChan c = unblockedChan")
  case False
  then have "pull env n c = unblockPullChan c" by (auto simp: pull_def)
  with assms show ?thesis by (simp add: running_unblockPullChan)
next
  case True
  have ids: "streamID (pull env n c) = stream \<and> shardID (pull env n c) = shard"
    using assms True
    by (auto simp: pull_def running_def Let_def nextBackOff_def
        split: prod.splits option.splits sum.splits)
  have "state (pull env n c) = Consuming \<or>
        (state (pull env n c) = Finished \<and> iter (pull env n c) = [])"
    using True
    by (auto simp: pull_def Let_def nextBackOff_def
        split: prod.splits option.splits sum.splits)
  with ids show ?thesis by (simp add: running_def)
qed

lemma prepare_continue:
  assumes "running stream shard c" "prepare env n c = Inr c1"
  shows "running stream shard c1"
  using assms
  by (auto simp: prepare_def running_def unblockPullChan_def Let_def
      split: if_splits prod.splits)

lemma prepare_return:
  assumes "running stream shard c" "prepare env n c = Inl c1"
  shows "streamID c1 = stream \<and> shardID c1 = shard \<and> state c1 = Finished \<and>
         iter c1 = [] \<and> pending c1 = [] \<and> pendingMsg c1 = None \<and> calls c1 = calls c"
  using assms
  by (auto simp: prepare_def running_def unblockPullChan_def Let_def
      split: if_splits prod.splits)

lemma running_armTimedBatch:
  "running stream shard (armTimedBatch env c) = running stream shard c"
  by (simp add: running_def armTimedBatch_def)

lemma wait_continue:
  assumes "running stream shard c" "wait env n c = Some (Inr c1)"
  shows "running stream shard c1"
  using assms
  by (auto simp: wait_def running_def Let_def
      split: select_event.splits if_splits prod.splits option.splits)

text \<open>Why a goroutine returned from the \<^verbatim>\<open>select\<close>.\<close>

definition lost_claim :: "'b consumer_env \<Rightarrow> 'b consumer \<Rightarrow> bool" where
  "lost_claim env c =
     (\<exists>n sequence. select env n = CommitDone False \<and>
        checkpoint_answer env n sequence = (False, None) \<and>
        calls c \<noteq> [] \<and> last (calls c) = Checkpoint (streamID c) (shardID c) sequence False)"

definition cancelled :: "'b consumer_env \<Rightarrow> bool" where
  "cancelled env = (\<exists>n. select env n = CommitDone True \<or> select env n = CtxDone)"

lemma wait_return:
  assumes "running stream shard c" "wait env n c = Some (Inl c1)"
  shows "streamID c1 = stream \<and> shardID c1 = shard \<and>
         ((state c1 = Yielding \<and> lost_claim env c1) \<or> (state c1 = Closing \<and> cancelled env))"
proof (cases "select env n")
  case (CommitDone x)
  show ?thesis
  proof (cases x)
    case True
    with CommitDone assms show ?thesis
      by (auto simp: wait_def running_def cancelled_def)
  next
    case False
    let ?s = "GetSequence env (recordBatcher c)"
    from False CommitDone assms have ans: "checkpoint_answer env n ?s = (False, None)"
      by (auto simp: wait_def Let_def split: prod.splits option.splits if_splits)
    from False CommitDone assms ans
    have c1: "c1 = c\<lparr>calls := calls c @ [Checkpoint (streamID c) (shardID c) ?s False],
                    state := Yielding\<rparr>"
      by (auto simp: wait_def Let_def)
    have "lost_claim env c1"
      unfolding lost_claim_def
      using CommitDone False ans c1 by (intro exI [of _ n] exI [of _ ?s]) simp
    with c1 assms show ?thesis by (simp add: running_def)
  qed
next
  case CtxDone
  with assms show ?thesis by (auto simp: wait_def running_def cancelled_def)
qed (use assms in \<open>auto simp: wait_def split: if_splits\<close>)

definition proper_exit :: "'b consumer_env \<Rightarrow> string \<Rightarrow> string \<Rightarrow> 'b consumer \<Rightarrow> bool" where
  "proper_exit env stream shard c =
     (streamID c = stream \<and> shardID c = shard \<and>
      ((state c = Finished \<and> iter c = [] \<and> pending c = [] \<and> pendingMsg c = None) \<or>
       (state c = Yielding \<and> lost_claim env c) \<or>
       (state c = Closing \<and> cancelled env)))"

lemma consumer_loop_exit:
  "running stream shard c \<Longrightarrow> consumer_loop fuel env n c = Some c' \<Longrightarrow>
   proper_exit env stream shard c'"
proof (induction fuel arbitrary: n c)
  case 0
  then show ?case by simp
next
  case (Suc fuel)
  have r1: "running stream shard (pull env n c)"
    using Suc.prems(1) by (rule running_pull)
  show ?case
  proof (cases "prepare env n (pull env n c)")
    case (Inl c1)
    with Suc.prems(2) have "c' = c1" by simp
    with prepare_return [OF r1 Inl] show ?thesis by (simp add: proper_exit_def)
  next
    case (Inr c1)
    have r2: "running stream shard (armTimedBatch env c1)"
      using prepare_continue [OF r1 Inr] by (simp add: running_armTimedBatch)
    show ?thesis
    proof (cases "wait env n (armTimedBatch env c1)")
      case None
      with Inr Suc.prems(2) show ?thesis by simp
    next
      case (Some w)
      show ?thesis
      proof (cases w)
        case (Inl c2)
        with Some Inr Suc.prems(2) have "c' = c2" by simp
        with wait_return [OF r2] Some Inl show ?thesis by (auto simp: proper_exit_def)
      next
        case inr: (Inr c2)
        with Some Inr Suc.prems(2) have "consumer_loop fuel env (Suc n) c2 = Some c'" by simp
        moreover have "running stream shard c2"
          using wait_continue [OF r2] Some inr by simp
        ultimately show ?thesis by (rule Suc.IH [rotated])
      qed
    qed
  qed
qed
text \<open>
  C2. A consumer goroutine that returns does so in one of three states, each reached
  for its own reason, and its deferred function makes exactly the one call to the
  checkpointer that belongs to that state: Delete when it returns Finished (iterator
  empty, nothing pending, nothing left to flush), Yield when it returns Yielding (a
  commit answered that the shard is no longer owned), a final Checkpoint when it
  returns Closing (the context was cancelled). It never returns in the state Consuming.
\<close>

theorem C2_exit_action:
  assumes "consumer_goroutine fuel env stream shard it b = Some (c, acts)"
  shows "(state c = Finished \<and> acts = [Delete stream shard] \<and>
            iter c = [] \<and> pending c = [] \<and> pendingMsg c = None) \<or>
         (state c = Yielding \<and>
            acts = [Yield stream shard (GetSequence env (recordBatcher c))] \<and>
            lost_claim env c) \<or>
         (state c = Closing \<and>
            acts = [Checkpoint stream shard (GetSequence env (recordBatcher c)) True] \<and>
            cancelled env)"
proof -
  from assms have loop: "consumer_loop fuel env 0 (consumer_start stream shard it b) = Some c"
    and acts: "acts = exit_calls env c"
    by (auto simp: consumer_goroutine_def split: option.splits)
  have "running stream shard (consumer_start stream shard it b)"
    by (simp add: running_def consumer_start_def)
  from consumer_loop_exit [OF this loop] have "proper_exit env stream shard c" .
  with acts show ?thesis
    by (auto simp: proper_exit_def exit_calls_def)
qed

text \<open>
  A small batcher for concrete runs: its state is the list of records added and not
  yet flushed; every record asks for a flush.
\<close>

definition toy_env ::
  "(nat \<Rightarrow> select_event) \<Rightarrow> (err + (string list \<times> string option)) \<Rightarrow> (err + string option)
   \<Rightarrow> bool \<times> err option \<Rightarrow> string list consumer_env" where
  "toy_env sel recs its ck =
     \<lparr>StartFromOldest = True,
      GetShardIterator = (\<lambda>n r. its),
      GetRecords = (\<lambda>n it. recs),
      NextBackOff = (\<lambda>k. 300),
      AddRecord = (\<lambda>r b. (True, b @ [r])),
      FlushMessage = (\<lambda>n b. ((if b = [] then None else Some b, None), [])),
      HasPendingMessage = (\<lambda>b. False),
      GetSequence = (\<lambda>b. ''41''),
      UntilNext = (\<lambda>b. None),
      checkpoint_answer = (\<lambda>n s. ck),
      select = sel\<rparr>"

definition shard_end_env :: "string list consumer_env" where
  "shard_end_env =
     toy_env (\<lambda>n. FlushSent) (Inr ([''r1''], None)) (Inr (Some ''it-new'')) (True, None)"

definition stolen_env :: "string list consumer_env" where
  "stolen_env =
     toy_env (\<lambda>n. CommitDone False) (Inr ([], Some ''it1'')) (Inr (Some ''it-new'')) (False, None)"

definition shutdown_env :: "string list consumer_env" where
  "shutdown_env =
     toy_env (\<lambda>n. CtxDone) (Inr ([], Some ''it1'')) (Inr (Some ''it-new'')) (True, None)"

lemmas consumer_run_defs =
  consumer_goroutine_def consumer_start_def pull_def prepare_def wait_def armTimedBatch_def
  getRecords_def nextBackOff_def unblockPullChan_def exit_calls_def toy_env_def Let_def

lemma shard_end_run:
  "\<exists>c. consumer_goroutine (Suc (Suc 0)) shard_end_env ''foo'' ''shard-0'' ''it0'' [] =
          Some (c, [Delete ''foo'' ''shard-0''])"
  by (simp add: consumer_run_defs shard_end_env_def)

lemma stolen_run:
  "\<exists>c. consumer_goroutine (Suc 0) stolen_env ''foo'' ''shard-0'' ''it0'' [] =
          Some (c, [Yield ''foo'' ''shard-0'' ''41''])"
  by (simp add: consumer_run_defs stolen_env_def)

lemma shutdown_run:
  "\<exists>c. consumer_goroutine (Suc 0) shutdown_env ''foo'' ''shard-0'' ''it0'' [] =
          Some (c, [Checkpoint ''foo'' ''shard-0'' ''41'' True])"
  by (simp add: consumer_run_defs shutdown_env_def)

text \<open>
  Three runs, one for each way out: the shard ends, the shard is stolen, the reader
  shuts down.
\<close>

theorem C2_exit_action_witness:
  "(\<exists>c. consumer_goroutine (Suc (Suc 0)) shard_end_env ''foo'' ''shard-0'' ''it0'' [] =
          Some (c, [Delete ''foo'' ''shard-0'']) \<and> state c = Finished \<and> iter c = []) \<and>
   (\<exists>c. consumer_goroutine (Suc 0) stolen_env ''foo'' ''shard-0'' ''it0'' [] =
          Some (c, [Yield ''foo'' ''shard-0'' ''41'']) \<and> state c = Yielding \<and>
          lost_claim stolen_env c) \<and>
   (\<exists>c. consumer_goroutine (Suc 0) shutdown_env ''foo'' ''shard-0'' ''it0'' [] =
          Some (c, [Checkpoint ''foo'' ''shard-0'' ''41'' True]) \<and> state c = Closing \<and>
          cancelled shutdown_env)"
proof (intro conjI)
  from shard_end_run obtain c where
    run: "consumer_goroutine (Suc (Suc 0)) shard_end_env ''foo'' ''shard-0'' ''it0'' [] =
            Some (c, [Delete ''foo'' ''shard-0''])" ..
  from C2_exit_action [OF run] have "state c = Finished \<and> iter c = []" by auto
  with run show "\<exists>c. consumer_goroutine (Suc (Suc 0)) shard_end_env ''foo'' ''shard-0'' ''it0'' [] =
          Some (c, [Delete ''foo'' ''shard-0'']) \<and> state c = Finished \<and> iter c = []"
    by blast
next
  from stolen_run obtain c where
    run: "consumer_goroutine (Suc 0) stolen_env ''foo'' ''shard-0'' ''it0'' [] =
            Some (c, [Yield ''foo'' ''shard-0'' ''41''])" ..
  from C2_exit_action [OF run] have "state c = Yielding \<and> lost_claim stolen_env c" by auto
  with run show "\<exists>c. consumer_goroutine (Suc 0) stolen_env ''foo'' ''shard-0'' ''it0'' [] =
          Some (c, [Yield ''foo'' ''shard-0'' ''41'']) \<and> state c = Yielding \<and>
          lost_claim stolen_env c"
    by blast
next
  from shutdown_run obtain c where
    run: "consumer_goroutine (Suc 0) shutdown_env ''foo'' ''shard-0'' ''it0'' [] =
            Some (c, [Checkpoint ''foo'' ''shard-0'' ''41'' True])" ..
  from C2_exit_action [OF run] have "state c = Closing \<and> cancelled shutdown_env" by auto
  with run show "\<exists>c. consumer_goroutine (Suc 0) shutdown_env ''foo'' ''shard-0'' ''it0'' [] =
          Some (c, [Checkpoint ''foo'' ''shard-0'' ''41'' True]) \<and> state c = Closing \<and>
          cancelled shutdown_env"
    by blast
qed

section \<open>Refreshing an expired shard iterator\<close>

lemma getIter_nonempty:
  "getIter env c stream shard sequence = Inr it \<Longrightarrow> it \<noteq> []"
  by (auto simp: getIter_def Let_def split: sum.splits option.splits if_splits)

lemma pull_expired:
  assumes "state c = Consuming" "pending c = []" "nextPullChan c = unblockedChan"
    and "GetRecords env n (iter c) = Inl e" "isExpiredIterator e" "\<not> awsErrIsTimeout e"
    and "iter c \<noteq> []"
  shows "pull env n c =
     (case getIter env (2 * n) (streamID c) (shardID c) (GetSequence env (recordBatcher c)) of
        Inl e2 \<Rightarrow> nextBackOff env c
      | Inr newIter \<Rightarrow> (nextBackOff env c)\<lparr>iter := newIter\<rparr>)"
proof -
  have c0: "c\<lparr>pending := [], iter := iter c\<rparr> = c"
    using assms(2) by simp
  show ?thesis
  proof (cases "getIter env (2 * n) (streamID c) (shardID c) (GetSequence env (recordBatcher c))")
    case (Inl e2)
    with assms c0 show ?thesis
      by (simp add: pull_def getRecords_def Let_def nextBackOff_def)
  next
    case (Inr newIter)
    then have "newIter \<noteq> []" by (rule getIter_nonempty)
    with Inr assms c0 show ?thesis
      by (simp add: pull_def getRecords_def Let_def nextBackOff_def)
  qed
qed

text \<open>
  A consumer that is still Consuming after a pull holds a non-empty iterator: the pull
  block moves a consumer whose iterator is empty to Finished.
\<close>

lemma pull_Consuming_iter:
  assumes "state c = Consuming" "pending c = []" "nextPullChan c = unblockedChan"
    and "state (pull env n c) = Consuming"
  shows "iter (pull env n c) \<noteq> []"
proof
  assume e: "iter (pull env n c) = []"
  from assms(1-3) obtain c1 where
    p: "pull env n c = (if iter c1 = [] then c1\<lparr>state := Finished\<rparr> else c1)"
    by (simp add: pull_def Let_def)
  show False
  proof (cases "iter c1 = []")
    case True
    with p assms(4) show False by simp
  next
    case False
    with p e show False by simp
  qed
qed

text \<open>
  The two answers of the service to the refresh made in iteration \<open>n\<close>: to the first
  request of \<^verbatim>\<open>getIter\<close>, at the batcher's sequence, and to its second request, at the
  trim horizon. An answer gives an iterator, gives none (nil or the empty string), or
  is an error.
\<close>

definition refresh_first :: "'b consumer_env \<Rightarrow> nat \<Rightarrow> 'b consumer \<Rightarrow> err + string option" where
  "refresh_first env n c =
     GetShardIterator env (2 * n)
       (firstIterInput env (streamID c) (shardID c) (GetSequence env (recordBatcher c)))"

definition refresh_second :: "'b consumer_env \<Rightarrow> nat \<Rightarrow> 'b consumer \<Rightarrow> err + string option" where
  "refresh_second env n c =
     GetShardIterator env (Suc (2 * n)) (trimHorizonInput (streamID c) (shardID c))"

definition gave_iterator :: "err + string option \<Rightarrow> string \<Rightarrow> bool" where
  "gave_iterator a it = (a = Inr (Some it) \<and> it \<noteq> [])"

definition gave_nothing :: "err + string option \<Rightarrow> bool" where
  "gave_nothing a = (a = Inr None \<or> a = Inr (Some []))"

lemma getIter_first:
  assumes "gave_iterator (refresh_first env n c) it"
  shows "getIter env (2 * n) (streamID c) (shardID c) (GetSequence env (recordBatcher c)) = Inr it"
  using assms by (simp add: getIter_def refresh_first_def gave_iterator_def Let_def)

lemma getIter_second:
  assumes "gave_nothing (refresh_first env n c)" "gave_iterator (refresh_second env n c) it"
  shows "getIter env (2 * n) (streamID c) (shardID c) (GetSequence env (recordBatcher c)) = Inr it"
  using assms
  by (auto simp: getIter_def refresh_first_def refresh_second_def gave_iterator_def
      gave_nothing_def Let_def)

lemma getIter_fails:
  assumes "(\<exists>e2. refresh_first env n c = Inl e2) \<or>
           (gave_nothing (refresh_first env n c) \<and>
            ((\<exists>e2. refresh_second env n c = Inl e2) \<or> gave_nothing (refresh_second env n c)))"
  shows "\<exists>e3. getIter env (2 * n) (streamID c) (shardID c) (GetSequence env (recordBatcher c)) =
           Inl e3"
  using assms
  by (auto simp: getIter_def refresh_first_def refresh_second_def gave_nothing_def Let_def)

lemma firstIterInput_value:
  "firstIterInput env stream shard sequence =
     \<lparr>StreamName = stream, ShardId_in = shard,
      StartingSequenceNumber = (if sequence \<noteq> [] then Some sequence else None),
      ShardIteratorType =
        (if sequence \<noteq> [] then AFTER_SEQUENCE_NUMBER
         else if StartFromOldest env then TRIM_HORIZON else LATEST)\<rparr>"
  by (simp add: firstIterInput_def)

text \<open>
  C8 (as amended). When a pull fails with an expired-iterator error that is not taken
  for a cancellation, the consumer asks the service for an iterator after the batcher's
  sequence, the last acknowledged one (when the batcher has no sequence yet: at the
  oldest or at the latest record, as configured). If the service gives an iterator,
  that iterator replaces the old one. If the service gives none, the consumer asks for
  the iterator at the trim horizon, the oldest record of the shard, and that one
  replaces the old one. If a request fails, or the second answer gives no iterator
  either, the old iterator is kept. In every case the next pull waits for the back-off,
  the consumer stays in the state Consuming, and the batcher, the pending records and
  the pending message are untouched. (The iterator of a Consuming consumer is not
  empty, see \<open>pull_Consuming_iter\<close> and \<open>getIter_nonempty\<close>.)
\<close>

theorem C8_expired_iterator_refresh:
  assumes "state c = Consuming" "pending c = []" "nextPullChan c = unblockedChan"
    and "GetRecords env n (iter c) = Inl e" "isExpiredIterator e" "\<not> awsErrIsTimeout e"
    and "iter c \<noteq> []"
  shows "(\<forall>it. gave_iterator (refresh_first env n c) it \<longrightarrow> iter (pull env n c) = it) \<and>
         (\<forall>it. gave_nothing (refresh_first env n c) \<and> gave_iterator (refresh_second env n c) it
                \<longrightarrow> iter (pull env n c) = it) \<and>
         ((\<exists>e2. refresh_first env n c = Inl e2) \<or>
          (gave_nothing (refresh_first env n c) \<and>
           ((\<exists>e2. refresh_second env n c = Inl e2) \<or> gave_nothing (refresh_second env n c)))
            \<longrightarrow> iter (pull env n c) = iter c) \<and>
         refresh_first env n c =
           GetShardIterator env (2 * n)
             \<lparr>StreamName = streamID c, ShardId_in = shardID c,
              StartingSequenceNumber =
                (if GetSequence env (recordBatcher c) \<noteq> []
                 then Some (GetSequence env (recordBatcher c)) else None),
              ShardIteratorType =
                (if GetSequence env (recordBatcher c) \<noteq> [] then AFTER_SEQUENCE_NUMBER
                 else if StartFromOldest env then TRIM_HORIZON else LATEST)\<rparr> \<and>
         refresh_second env n c =
           GetShardIterator env (Suc (2 * n))
             \<lparr>StreamName = streamID c, ShardId_in = shardID c,
              StartingSequenceNumber = None, ShardIteratorType = TRIM_HORIZON\<rparr> \<and>
         state (pull env n c) = Consuming \<and>
         recordBatcher (pull env n c) = recordBatcher c \<and>
         pending (pull env n c) = pending c \<and>
         pendingMsg (pull env n c) = pendingMsg c \<and>
         nextPullChan (pull env n c) = After (NextBackOff env (boff c))"
proof -
  let ?g = "getIter env (2 * n) (streamID c) (shardID c) (GetSequence env (recordBatcher c))"
  note p = pull_expired [OF assms]
  have one: "iter (pull env n c) = it" if "gave_iterator (refresh_first env n c) it" for it
    using p getIter_first [OF that] by simp
  have two: "iter (pull env n c) = it"
    if "gave_nothing (refresh_first env n c)" "gave_iterator (refresh_second env n c) it" for it
    using p getIter_second [OF that] by simp
  have three: "iter (pull env n c) = iter c"
    if "(\<exists>e2. refresh_first env n c = Inl e2) \<or>
        (gave_nothing (refresh_first env n c) \<and>
         ((\<exists>e2. refresh_second env n c = Inl e2) \<or> gave_nothing (refresh_second env n c)))"
  proof -
    from getIter_fails [OF that] obtain e3 where "?g = Inl e3" ..
    with p show ?thesis by (simp add: nextBackOff_def)
  qed
  have requests: "refresh_first env n c =
           GetShardIterator env (2 * n)
             \<lparr>StreamName = streamID c, ShardId_in = shardID c,
              StartingSequenceNumber =
                (if GetSequence env (recordBatcher c) \<noteq> []
                 then Some (GetSequence env (recordBatcher c)) else None),
              ShardIteratorType =
                (if GetSequence env (recordBatcher c) \<noteq> [] then AFTER_SEQUENCE_NUMBER
                 else if StartFromOldest env then TRIM_HORIZON else LATEST)\<rparr>"
    "refresh_second env n c =
           GetShardIterator env (Suc (2 * n))
             \<lparr>StreamName = streamID c, ShardId_in = shardID c,
              StartingSequenceNumber = None, ShardIteratorType = TRIM_HORIZON\<rparr>"
    by (simp_all only: refresh_first_def refresh_second_def firstIterInput_value
        trimHorizonInput_def)
  have rest: "state (pull env n c) = Consuming \<and>
         recordBatcher (pull env n c) = recordBatcher c \<and>
         pending (pull env n c) = pending c \<and>
         pendingMsg (pull env n c) = pendingMsg c \<and>
         nextPullChan (pull env n c) = After (NextBackOff env (boff c))"
  proof (cases ?g)
    case (Inl e2)
    with p assms(1) show ?thesis by (simp add: nextBackOff_def)
  next
    case (Inr newIter)
    with p assms(1) getIter_nonempty [OF Inr] show ?thesis by (simp add: nextBackOff_def)
  qed
  from one two three requests rest show ?thesis by blast
qed

text \<open>
  Concrete pulls: the iterator \<open>''it-old''\<close> has expired. In \<open>refresh_ok_env\<close> the
  service hands out \<open>''it-new''\<close>; in \<open>refresh_fails_env\<close> the request for a new
  iterator is throttled; in \<open>fallback_env\<close> the service gives no iterator after the
  sequence and \<open>''it-oldest''\<close> at the trim horizon.
\<close>

definition expired :: err where
  "expired = AwsError ErrCodeExpiredIteratorException ''Iterator expired''"

definition refresh_ok_env :: "string list consumer_env" where
  "refresh_ok_env = toy_env (\<lambda>n. PullReady) (Inl expired) (Inr (Some ''it-new'')) (True, None)"

definition refresh_fails_env :: "string list consumer_env" where
  "refresh_fails_env =
     toy_env (\<lambda>n. PullReady) (Inl expired)
       (Inl (AwsError ''ProvisionedThroughputExceededException'' ''Rate exceeded'')) (True, None)"

definition fallback_env :: "string list consumer_env" where
  "fallback_env =
     (toy_env (\<lambda>n. PullReady) (Inl expired) (Inr None) (True, None))
       \<lparr>GetShardIterator :=
          (\<lambda>k r. if ShardIteratorType r = TRIM_HORIZON then Inr (Some ''it-oldest'')
                  else Inr None)\<rparr>"

definition holding_old_iter :: "string list consumer" where
  "holding_old_iter = consumer_start ''foo'' ''shard-0'' ''it-old'' [''r7'']"

lemma expired_not_timeout: "isExpiredIterator expired \<and> \<not> awsErrIsTimeout expired"
  by (simp add: expired_def awsErrIsTimeout_def HasSuffix_def ErrCodeExpiredIteratorException_def)

text \<open>
  C8 as stated fails when the refresh itself fails: the pull ends with the expired
  iterator still in place, so no fresh iterator was obtained.
\<close>

theorem C8_refresh_fails_counterexample:
  "GetRecords refresh_fails_env 0 (iter holding_old_iter) = Inl expired \<and>
   isExpiredIterator expired \<and> \<not> awsErrIsTimeout expired \<and>
   getIter refresh_fails_env 0 ''foo'' ''shard-0''
       (GetSequence refresh_fails_env (recordBatcher holding_old_iter)) =
     Inl (AwsError ''ProvisionedThroughputExceededException'' ''Rate exceeded'') \<and>
   iter (pull refresh_fails_env 0 holding_old_iter) = ''it-old''"
  by (simp add: expired_not_timeout)
     (simp add: refresh_fails_env_def holding_old_iter_def toy_env_def consumer_start_def
      pull_def getRecords_def getIter_def firstIterInput_def trimHorizonInput_def
      nextBackOff_def Let_def expired_def awsErrIsTimeout_def HasSuffix_def ErrCodeExpiredIteratorException_def)

text \<open>
  The theorem at the pull whose refresh succeeds (the consumer goes on from
  \<open>''it-new''\<close>, the answer to the request after sequence 41, with its batcher as it
  was) and at the pull whose refresh falls back to the trim horizon.
\<close>

theorem C8_expired_iterator_refresh_witness:
  "iter (pull refresh_ok_env 0 holding_old_iter) = ''it-new'' \<and>
   refresh_first refresh_ok_env 0 holding_old_iter =
     GetShardIterator refresh_ok_env 0
       \<lparr>StreamName = ''foo'', ShardId_in = ''shard-0'', StartingSequenceNumber = Some ''41'',
        ShardIteratorType = AFTER_SEQUENCE_NUMBER\<rparr> \<and>
   state (pull refresh_ok_env 0 holding_old_iter) = Consuming \<and>
   recordBatcher (pull refresh_ok_env 0 holding_old_iter) = [''r7''] \<and>
   nextPullChan (pull refresh_ok_env 0 holding_old_iter) = After 300 \<and>
   gave_nothing (refresh_first fallback_env 0 holding_old_iter) \<and>
   iter (pull fallback_env 0 holding_old_iter) = ''it-oldest'' \<and>
   state (pull fallback_env 0 holding_old_iter) = Consuming"
proof -
  have pre: "state holding_old_iter = Consuming" "pending holding_old_iter = []"
    "nextPullChan holding_old_iter = unblockedChan"
    "GetRecords refresh_ok_env 0 (iter holding_old_iter) = Inl expired"
    "isExpiredIterator expired" "\<not> awsErrIsTimeout expired"
    "iter holding_old_iter \<noteq> []"
    by (simp_all add: expired_not_timeout)
       (simp_all add: holding_old_iter_def consumer_start_def refresh_ok_env_def toy_env_def)
  have pre2: "GetRecords fallback_env 0 (iter holding_old_iter) = Inl expired"
    by (simp add: fallback_env_def toy_env_def)
  have first: "gave_iterator (refresh_first refresh_ok_env 0 holding_old_iter) ''it-new''"
    by (simp add: gave_iterator_def refresh_first_def refresh_ok_env_def toy_env_def)
  have gn: "gave_nothing (refresh_first fallback_env 0 holding_old_iter)"
    by (simp add: gave_nothing_def refresh_first_def firstIterInput_def fallback_env_def
        toy_env_def holding_old_iter_def consumer_start_def)
  have second: "gave_iterator (refresh_second fallback_env 0 holding_old_iter) ''it-oldest''"
    by (simp add: gave_iterator_def refresh_second_def trimHorizonInput_def fallback_env_def
        toy_env_def)
  have vals: "\<And>b. GetSequence refresh_ok_env b = ''41''"
    "streamID holding_old_iter = ''foo''" "shardID holding_old_iter = ''shard-0''"
    "recordBatcher holding_old_iter = [''r7'']" "boff holding_old_iter = 0"
    "NextBackOff refresh_ok_env 0 = 300"
    by (simp_all add: holding_old_iter_def consumer_start_def refresh_ok_env_def toy_env_def)
  note ok = C8_expired_iterator_refresh [OF pre]
  note fb = C8_expired_iterator_refresh [OF pre(1-3) pre2 pre(5-7)]
  from ok first have a: "iter (pull refresh_ok_env 0 holding_old_iter) = ''it-new''"
    by blast
  from ok have b: "refresh_first refresh_ok_env 0 holding_old_iter =
     GetShardIterator refresh_ok_env 0
       \<lparr>StreamName = ''foo'', ShardId_in = ''shard-0'', StartingSequenceNumber = Some ''41'',
        ShardIteratorType = AFTER_SEQUENCE_NUMBER\<rparr>"
    by (simp add: vals)
  from ok have c: "state (pull refresh_ok_env 0 holding_old_iter) = Consuming \<and>
      recordBatcher (pull refresh_ok_env 0 holding_old_iter) = [''r7''] \<and>
      nextPullChan (pull refresh_ok_env 0 holding_old_iter) = After 300"
    by (simp add: vals)
  from fb gn second have d: "iter (pull fallback_env 0 holding_old_iter) = ''it-oldest''"
    by blast
  from fb have e: "state (pull fallback_env 0 holding_old_iter) = Consuming" by blast
  from a b c d e gn show ?thesis by blast
qed

section \<open>SQS writer: WriteBatch (output\_sqs.go)\<close>

text \<open>\<^verbatim>\<open>strconv.Itoa\<close> on a non-negative number.\<close>

fun Itoa :: "nat \<Rightarrow> string" where
  "Itoa n =
     (if n < 10 then [''0123456789'' ! n]
      else Itoa (n div 10) @ [''0123456789'' ! (n mod 10)])"

declare Itoa.simps [simp del]

record sqsAttributes =
  attrMap :: "(string \<times> string) list option"
  groupID :: "string option"
  dedupeID :: "string option"
  content :: "string option"

record SendMessageBatchRequestEntry =
  Id :: "string option"
  MessageBody :: "string option"
  MessageAttributes :: "(string \<times> string) list option"
  MessageGroupId :: "string option"
  MessageDeduplicationId :: "string option"

record BatchResultErrorEntry =
  failed_Id :: string
  SenderFault :: bool
  Code :: string
  Message :: string

definition sqsMaxRecordsCount :: nat where
  "sqsMaxRecordsCount = 10"

text \<open>
  \<^verbatim>\<open>backOff.NextBackOff()\<close> gives a duration or \<^verbatim>\<open>backoff.Stop\<close>. The \<^verbatim>\<open>select\<close> that
  waits to retry ends by the timer, by the context or by the writer's close channel.
\<close>

datatype backoff_wait = Stop | Wait nat

datatype wake = TimerFired | ContextDone | CloseChanClosed

text \<open>
  The environment of one \<^verbatim>\<open>WriteBatch\<close>: the attributes computed for each message
  (\<^verbatim>\<open>getSQSAttributes\<close> interpolates, which is outside this file), and, by the number
  of the loop iteration, the back-off's answer, the answer of SQS (an \<^verbatim>\<open>awserr\<close> code
  and message, or the list of failed entries) and what ends the wait.
\<close>

record sqs_env =
  getSQSAttributes :: "string list \<Rightarrow> nat \<Rightarrow> err + sqsAttributes"
  backOff_NextBackOff :: "nat \<Rightarrow> backoff_wait"
  SendMessageBatch ::
    "nat \<Rightarrow> SendMessageBatchRequestEntry list \<Rightarrow> (string \<times> string) + BatchResultErrorEntry list"
  wake :: "nat \<Rightarrow> wake"

definition request_entry :: "string option \<Rightarrow> sqsAttributes \<Rightarrow> SendMessageBatchRequestEntry" where
  "request_entry i attrs =
     \<lparr>Id = i, MessageBody = content attrs, MessageAttributes = attrMap attrs,
      MessageGroupId = groupID attrs, MessageDeduplicationId = dedupeID attrs\<rparr>"

text \<open>The zero value of \<^verbatim>\<open>sqsAttributes\<close>, which a Go map gives for a missing key.\<close>

definition no_attributes :: sqsAttributes where
  "no_attributes = \<lparr>attrMap = None, groupID = None, dedupeID = None, content = None\<rparr>"

text \<open>
  The first loop of \<^verbatim>\<open>WriteBatch\<close>: one entry per message, with its index as id; the
  first message whose attributes fail ends the call with that error.
\<close>

fun build_entries ::
  "sqs_env \<Rightarrow> string list \<Rightarrow> nat \<Rightarrow> nat
   \<Rightarrow> err + ((string \<times> sqsAttributes) list \<times> SendMessageBatchRequestEntry list)" where
  "build_entries env batch i 0 = Inr ([], [])"
| "build_entries env batch i (Suc k) =
     (case getSQSAttributes env batch i of
        Inl e \<Rightarrow> Inl e
      | Inr attrs \<Rightarrow>
          (case build_entries env batch (Suc i) k of
             Inl e \<Rightarrow> Inl e
           | Inr (m, es) \<Rightarrow>
               Inr ((Itoa i, attrs) # m, request_entry (Some (Itoa i)) attrs # es)))"

text \<open>
  The loop over the failed entries of an answer: a sender fault ends the call, every
  other failed entry is queued again with the attributes stored under its id.
\<close>

fun requeue ::
  "(string \<times> sqsAttributes) list \<Rightarrow> BatchResultErrorEntry list
   \<Rightarrow> err + SendMessageBatchRequestEntry list" where
  "requeue attrs [] = Inr []"
| "requeue attrs (v # vs) =
     (if SenderFault v
      then Inl (Upstream (''record failed with code: '' @ Code v @ '', message: '' @ Message v))
      else (case requeue attrs vs of
              Inl e \<Rightarrow> Inl e
            | Inr es \<Rightarrow>
                Inr (request_entry (Some (failed_Id v))
                       (case map_of attrs (failed_Id v) of
                          None \<Rightarrow> no_attributes
                        | Some aMap \<Rightarrow> aMap) # es)))"

text \<open>Topping the request up to ten entries from those not sent yet.\<close>

definition add_remaining ::
  "SendMessageBatchRequestEntry list \<Rightarrow> SendMessageBatchRequestEntry list
   \<Rightarrow> SendMessageBatchRequestEntry list \<times> SendMessageBatchRequestEntry list" where
  "add_remaining inputEntries entries =
     (let l = length inputEntries; n = length entries
      in if n > 0 \<and> l < sqsMaxRecordsCount then
           (let remaining = sqsMaxRecordsCount - l
            in if remaining < n
               then (inputEntries @ take remaining entries, drop remaining entries)
               else (inputEntries @ entries, []))
         else (inputEntries, entries))"

text \<open>
  The retry loop, for at most \<open>fuel\<close> iterations; \<open>n\<close> numbers the iteration.
  \<open>None\<close>: the loop has not ended within \<open>fuel\<close> iterations. \<open>Some r\<close>: \<^verbatim>\<open>WriteBatch\<close>
  returned \<open>r\<close>.
\<close>

fun send_loop ::
  "nat \<Rightarrow> sqs_env \<Rightarrow> (string \<times> sqsAttributes) list \<Rightarrow> nat
   \<Rightarrow> SendMessageBatchRequestEntry list \<Rightarrow> SendMessageBatchRequestEntry list
   \<Rightarrow> err option \<Rightarrow> err option option" where
  "send_loop 0 env attrs n inputEntries entries err = None"
| "send_loop (Suc fuel) env attrs n inputEntries entries err =
     (if length inputEntries > 0 then
        (let wait = backOff_NextBackOff env n
         in case SendMessageBatch env n inputEntries of
              Inl (code, message) \<Rightarrow>
                (if wait = Stop then Some (Some (AwsError code message))
                 else (case wake env n of
                         TimerFired \<Rightarrow>
                           send_loop fuel env attrs (Suc n) inputEntries entries
                             (Some (AwsError code message))
                       | ContextDone \<Rightarrow> Some (Some ErrTimeout)
                       | CloseChanClosed \<Rightarrow> Some (Some (AwsError code message))))
            | Inr unproc \<Rightarrow>
                (if length unproc > 0 then
                   (case requeue attrs unproc of
                      Inl e \<Rightarrow> Some (Some e)
                    | Inr again \<Rightarrow>
                        (let err1 = Upstream (''failed to send '' @ Itoa (length unproc) @ '' messages'')
                         in if wait = Stop then Some (Some err1)
                            else (case wake env n of
                                    TimerFired \<Rightarrow>
                                      (case add_remaining again entries of
                                         (inputEntries1, entries1) \<Rightarrow>
                                           send_loop fuel env attrs (Suc n) inputEntries1 entries1
                                             (Some err1))
                                  | ContextDone \<Rightarrow> Some (Some ErrTimeout)
                                  | CloseChanClosed \<Rightarrow> Some (Some err1))))
                 else
                   (case add_remaining [] entries of
                      (inputEntries1, entries1) \<Rightarrow>
                        send_loop fuel env attrs (Suc n) inputEntries1 entries1 None)))
      else Some err)"

definition WriteBatch :: "nat \<Rightarrow> sqs_env \<Rightarrow> sqsWriter \<Rightarrow> string list \<Rightarrow> err option option" where
  "WriteBatch fuel env a batch =
     (if sqs a = None then Some (Some ErrNotConnected)
      else
        (case build_entries env batch 0 (length batch) of
           Inl e \<Rightarrow> Some (Some e)
         | Inr (attrs, entries) \<Rightarrow>
             (if length entries > sqsMaxRecordsCount
              then send_loop fuel env attrs 0
                     (take sqsMaxRecordsCount entries) (drop sqsMaxRecordsCount entries) None
              else send_loop fuel env attrs 0 entries [] None)))"

section \<open>Cancellation while the SQS writer waits to retry\<close>

text \<open>
  C7 (as amended). In any iteration of the retry loop of \<^verbatim>\<open>WriteBatch\<close> in which the
  write failed (the call returned an error, or some entries failed without a sender
  fault), the back-off has not stopped and the wait to retry is ended by the context's
  cancellation, \<^verbatim>\<open>WriteBatch\<close> returns \<^verbatim>\<open>component.ErrTimeout\<close>, which is not the error
  of SQS nor the count of failed messages. In an iteration in which the write failed
  and the back-off has stopped, \<^verbatim>\<open>WriteBatch\<close> returns the error of SQS (or the count of
  failed messages) whatever would have ended a wait: the context is not consulted.
\<close>

theorem C7_cancelled_while_waiting:
  "(inputEntries \<noteq> [] \<and> backOff_NextBackOff env n \<noteq> Stop \<and> wake env n = ContextDone \<and>
    (SendMessageBatch env n inputEntries = Inl (code, message) \<or>
     (SendMessageBatch env n inputEntries = Inr unproc \<and> unproc \<noteq> [] \<and>
      requeue attrs unproc = Inr again)) \<longrightarrow>
      send_loop (Suc fuel) env attrs n inputEntries entries err = Some (Some ErrTimeout) \<and>
      ErrTimeout \<noteq> AwsError code message \<and>
      ErrTimeout \<noteq> Upstream (''failed to send '' @ Itoa (length unproc) @ '' messages'')) \<and>
   (inputEntries \<noteq> [] \<and> backOff_NextBackOff env n = Stop \<and>
    SendMessageBatch env n inputEntries = Inl (code, message) \<longrightarrow>
      send_loop (Suc fuel) (env\<lparr>wake := w\<rparr>) attrs n inputEntries entries err =
        Some (Some (AwsError code message))) \<and>
   (inputEntries \<noteq> [] \<and> backOff_NextBackOff env n = Stop \<and>
    SendMessageBatch env n inputEntries = Inr unproc \<and> unproc \<noteq> [] \<and>
    requeue attrs unproc = Inr again \<longrightarrow>
      send_loop (Suc fuel) (env\<lparr>wake := w\<rparr>) attrs n inputEntries entries err =
        Some (Some (Upstream (''failed to send '' @ Itoa (length unproc) @ '' messages''))))"
proof (intro conjI impI)
  assume h: "inputEntries \<noteq> [] \<and> backOff_NextBackOff env n \<noteq> Stop \<and>
    wake env n = ContextDone \<and>
    (SendMessageBatch env n inputEntries = Inl (code, message) \<or>
     (SendMessageBatch env n inputEntries = Inr unproc \<and> unproc \<noteq> [] \<and>
      requeue attrs unproc = Inr again))"
  then show "send_loop (Suc fuel) env attrs n inputEntries entries err = Some (Some ErrTimeout)"
    by (auto simp: Let_def)
  show "ErrTimeout \<noteq> AwsError code message" by simp
  show "ErrTimeout \<noteq> Upstream (''failed to send '' @ Itoa (length unproc) @ '' messages'')"
    by simp
next
  assume "inputEntries \<noteq> [] \<and> backOff_NextBackOff env n = Stop \<and>
    SendMessageBatch env n inputEntries = Inl (code, message)"
  then show "send_loop (Suc fuel) (env\<lparr>wake := w\<rparr>) attrs n inputEntries entries err =
        Some (Some (AwsError code message))"
    by (simp add: Let_def)
next
  assume "inputEntries \<noteq> [] \<and> backOff_NextBackOff env n = Stop \<and>
    SendMessageBatch env n inputEntries = Inr unproc \<and> unproc \<noteq> [] \<and>
    requeue attrs unproc = Inr again"
  then show "send_loop (Suc fuel) (env\<lparr>wake := w\<rparr>) attrs n inputEntries entries err =
        Some (Some (Upstream (''failed to send '' @ Itoa (length unproc) @ '' messages'')))"
    by (simp add: Let_def)
qed

text \<open>
  A concrete write of one message. SQS refuses every request. In \<open>cancelled_env\<close>
  the first wait ends by the timer and the second by the context. In
  \<open>exhausted_env\<close> the back-off stops at the second attempt, during which the
  context is cancelled as well.
\<close>

definition plain_attributes :: "string list \<Rightarrow> nat \<Rightarrow> err + sqsAttributes" where
  "plain_attributes batch i =
     Inr \<lparr>attrMap = None, groupID = None, dedupeID = None, content = Some (batch ! i)\<rparr>"

definition cancelled_env :: sqs_env where
  "cancelled_env =
     \<lparr>getSQSAttributes = plain_attributes,
      backOff_NextBackOff = (\<lambda>n. Wait 500),
      SendMessageBatch = (\<lambda>n es. Inl (''ServiceUnavailable'', ''try later'')),
      wake = (\<lambda>n. if n = 0 then TimerFired else ContextDone)\<rparr>"

definition exhausted_env :: sqs_env where
  "exhausted_env =
     \<lparr>getSQSAttributes = plain_attributes,
      backOff_NextBackOff = (\<lambda>n. if n = 0 then Wait 500 else Stop),
      SendMessageBatch = (\<lambda>n es. Inl (''ServiceUnavailable'', ''try later'')),
      wake = (\<lambda>n. if n = 0 then TimerFired else ContextDone)\<rparr>"

lemma Itoa_0: "Itoa 0 = ''0''"
  by (simp add: Itoa.simps)

text \<open>
  C7 as stated fails: the context is cancelled during the second attempt, and the
  write fails with the error of SQS, not with a timeout.
\<close>

theorem C7_backoff_stopped_counterexample:
  "wake exhausted_env 1 = ContextDone \<and>
   WriteBatch (Suc (Suc 0)) exhausted_env connected_sqs [''m''] =
     Some (Some (AwsError ''ServiceUnavailable'' ''try later'')) \<and>
   AwsError ''ServiceUnavailable'' ''try later'' \<noteq> ErrTimeout"
  by (simp add: WriteBatch_def connected_sqs_def exhausted_env_def plain_attributes_def
      request_entry_def sqsMaxRecordsCount_def Itoa_0 Let_def)

text \<open>
  The theorem at the second attempt of the write, in \<open>cancelled_env\<close> (the context
  ends the wait) and in \<open>exhausted_env\<close> (the back-off has stopped).
\<close>

theorem C7_cancelled_while_waiting_witness:
  "WriteBatch (Suc (Suc 0)) cancelled_env connected_sqs [''m''] = Some (Some ErrTimeout) \<and>
   send_loop (Suc 0) cancelled_env [(''0'', \<lparr>attrMap = None, groupID = None, dedupeID = None,
       content = Some ''m''\<rparr>)] 1
     [\<lparr>Id = Some ''0'', MessageBody = Some ''m'', MessageAttributes = None,
       MessageGroupId = None, MessageDeduplicationId = None\<rparr>] []
     (Some (AwsError ''ServiceUnavailable'' ''try later'')) = Some (Some ErrTimeout) \<and>
   send_loop (Suc 0) (exhausted_env\<lparr>wake := (\<lambda>n. TimerFired)\<rparr>)
     [(''0'', \<lparr>attrMap = None, groupID = None, dedupeID = None, content = Some ''m''\<rparr>)] 1
     [\<lparr>Id = Some ''0'', MessageBody = Some ''m'', MessageAttributes = None,
       MessageGroupId = None, MessageDeduplicationId = None\<rparr>] []
     (Some (AwsError ''ServiceUnavailable'' ''try later'')) =
     Some (Some (AwsError ''ServiceUnavailable'' ''try later''))"
proof -
  let ?attrs = "[(''0'', \<lparr>attrMap = None, groupID = None, dedupeID = None,
       content = Some ''m''\<rparr>)]"
  let ?inp = "[\<lparr>Id = Some ''0'', MessageBody = Some ''m'', MessageAttributes = None,
       MessageGroupId = None, MessageDeduplicationId = None\<rparr>]"
  let ?e = "Some (AwsError ''ServiceUnavailable'' ''try later'')"
  have second: "send_loop (Suc 0) cancelled_env ?attrs 1 ?inp [] ?e = Some (Some ErrTimeout)"
    using C7_cancelled_while_waiting [where inputEntries = ?inp and env = cancelled_env
        and n = 1 and code = "''ServiceUnavailable''" and message = "''try later''"
        and unproc = "[]" and attrs = ?attrs and again = "[]" and fuel = 0
        and entries = "[]" and err = ?e]
    by (simp add: cancelled_env_def)
  have stopped: "send_loop (Suc 0) (exhausted_env\<lparr>wake := (\<lambda>n. TimerFired)\<rparr>) ?attrs 1 ?inp []
      ?e = Some (Some (AwsError ''ServiceUnavailable'' ''try later''))"
    using C7_cancelled_while_waiting [where inputEntries = ?inp and env = exhausted_env
        and n = 1 and code = "''ServiceUnavailable''" and message = "''try later''"
        and unproc = "[]" and attrs = ?attrs and again = "[]" and fuel = 0
        and entries = "[]" and err = ?e and w = "\<lambda>n. TimerFired"]
    by (simp add: exhausted_env_def)
  have "WriteBatch (Suc (Suc 0)) cancelled_env connected_sqs [''m''] =
      send_loop (Suc 0) cancelled_env ?attrs 1 ?inp [] ?e"
    by (simp add: WriteBatch_def connected_sqs_def cancelled_env_def plain_attributes_def
        request_entry_def sqsMaxRecordsCount_def Itoa_0 Let_def)
  with second stopped show ?thesis by simp
qed

text \<open>
  The other direction: \<^verbatim>\<open>WriteBatch\<close> returns \<^verbatim>\<open>component.ErrTimeout\<close> only when a wait
  to retry was ended by the context (or when computing a message's attributes failed
  with that very error), so the error kind tells the caller what happened.
\<close>

lemma requeue_error: "requeue attrs vs = Inl e \<Longrightarrow> e \<noteq> ErrTimeout"
  by (induction vs arbitrary: e) (auto split: if_splits sum.splits)

lemma send_loop_timeout_origin:
  "send_loop fuel env attrs n inputEntries entries err = Some (Some ErrTimeout) \<Longrightarrow>
   err \<noteq> Some ErrTimeout \<Longrightarrow>
   \<exists>k. wake env k = ContextDone \<and> backOff_NextBackOff env k \<noteq> Stop"
proof (induction fuel arbitrary: n inputEntries entries err)
  case 0
  then show ?case by simp
next
  case (Suc fuel)
  show ?case
  proof (cases "inputEntries = []")
    case True
    with Suc.prems show ?thesis by simp
  next
    case False
    show ?thesis
    proof (cases "backOff_NextBackOff env n \<noteq> Stop \<and> wake env n = ContextDone")
      case True
      then show ?thesis by blast
    next
      case here: False
      show ?thesis
      proof (cases "SendMessageBatch env n inputEntries")
        case (Inl cm)
        obtain code message where cm: "cm = (code, message)" by (cases cm)
        from Suc.prems(1) False here Inl cm
        have "send_loop fuel env attrs (Suc n) inputEntries entries
                (Some (AwsError code message)) = Some (Some ErrTimeout)"
          by (auto simp: Let_def split: if_splits wake.splits)
        from Suc.IH [OF this] show ?thesis by simp
      next
        case (Inr unproc)
        show ?thesis
        proof (cases "unproc = []")
          case True
          obtain i1 e1 where ar: "add_remaining [] entries = (i1, e1)"
            by (cases "add_remaining [] entries")
          from Suc.prems(1) False Inr True ar
          have "send_loop fuel env attrs (Suc n) i1 e1 None = Some (Some ErrTimeout)"
            by (simp add: Let_def)
          from Suc.IH [OF this] show ?thesis by simp
        next
          case ne: False
          show ?thesis
          proof (cases "requeue attrs unproc")
            case (Inl e)
            from requeue_error [OF Inl] Suc.prems(1) False Inr ne Inl show ?thesis
              by (simp add: Let_def)
          next
            case again: (Inr again)
            obtain i1 e1 where ar: "add_remaining again entries = (i1, e1)"
              by (cases "add_remaining again entries")
            let ?err1 = "Upstream (''failed to send '' @ Itoa (length unproc) @ '' messages'')"
            from Suc.prems(1) False here Inr ne again ar
            have "send_loop fuel env attrs (Suc n) i1 e1 (Some ?err1) = Some (Some ErrTimeout)"
              by (auto simp: Let_def split: if_splits wake.splits)
            from Suc.IH [OF this] show ?thesis by simp
          qed
        qed
      qed
    qed
  qed
qed

lemma build_entries_error:
  "build_entries env batch i k = Inl e \<Longrightarrow> \<exists>j. getSQSAttributes env batch j = Inl e"
  by (induction k arbitrary: i e) (auto split: sum.splits prod.splits)

lemma WriteBatch_timeout_origin:
  assumes "WriteBatch fuel env a batch = Some (Some ErrTimeout)"
    and "\<forall>j. getSQSAttributes env batch j \<noteq> Inl ErrTimeout"
  shows "\<exists>k. wake env k = ContextDone \<and> backOff_NextBackOff env k \<noteq> Stop"
proof (cases "build_entries env batch 0 (length batch)")
  case (Inl e)
  with assms(1) have "e = ErrTimeout"
    by (simp add: WriteBatch_def split: if_splits)
  with build_entries_error [OF Inl] assms(2) show ?thesis by blast
next
  case (Inr p)
  obtain attrs entries where p: "p = (attrs, entries)" by (cases p)
  from assms(1) Inr p
  have "send_loop fuel env attrs 0 (take sqsMaxRecordsCount entries)
           (drop sqsMaxRecordsCount entries) None = Some (Some ErrTimeout) \<or>
        send_loop fuel env attrs 0 entries [] None = Some (Some ErrTimeout)"
    by (auto simp: WriteBatch_def split: if_splits)
  then show ?thesis
    using send_loop_timeout_origin by blast
qed

section \<open>Dynamic brokers: the update handler\<close>

text \<open>
  \<^verbatim>\<open>newDynamicInput\<close> (input\_dynamic.go) and \<^verbatim>\<open>newDynamicOutput\<close> keep the configs of
  the components handed to the broker in a map (\<^verbatim>\<open>inputConfigs\<close>, \<^verbatim>\<open>outputConfigs\<close>)
  that starts as the statically configured ones. The broker calls back when a
  component has started: the callback reports the stored config to the API
  (\<^verbatim>\<open>dynAPI.Started\<close>) and deletes it from the map. A config is the text it was read
  from; a component is a number.

  The YAML decoder, the manager's constructors and the broker are collaborators. The
  broker's \<^verbatim>\<open>SetInput\<close> or \<^verbatim>\<open>SetOutput\<close> answers with its error and with whether the
  start callback for the id ran before it returned.
\<close>

record dynamic_env =
  yaml_Unmarshal :: "string \<Rightarrow> err + string"
  NewInput :: "string \<Rightarrow> string \<Rightarrow> err + nat"
  SetInput :: "string \<Rightarrow> nat \<Rightarrow> err option \<times> bool"
  NewOutput :: "string \<Rightarrow> string \<Rightarrow> err + nat"
  RetryOutputIndefinitely :: "nat \<Rightarrow> err + nat"
  SetOutput :: "string \<Rightarrow> nat \<Rightarrow> err option \<times> bool"

record dynamicInput =
  inputConfigs :: "string \<rightharpoonup> string"
  inputs_Started :: "(string \<times> string) list"

record dynamicOutput =
  outputConfigs :: "string \<rightharpoonup> string"
  outputs_Started :: "(string \<times> string) list"

text \<open>The start callbacks given to the brokers.\<close>

definition input_started :: "string \<Rightarrow> dynamicInput \<Rightarrow> dynamicInput" where
  "input_started l d =
     (case inputConfigs d l of
        None \<Rightarrow> d
      | Some uConf \<Rightarrow>
          d\<lparr>inputs_Started := inputs_Started d @ [(l, uConf)],
            inputConfigs := (inputConfigs d)(l := None)\<rparr>)"

definition output_started :: "string \<Rightarrow> dynamicOutput \<Rightarrow> dynamicOutput" where
  "output_started l d =
     (case outputConfigs d l of
        None \<Rightarrow> d
      | Some uConf \<Rightarrow>
          d\<lparr>outputs_Started := outputs_Started d @ [(l, uConf)],
            outputConfigs := (outputConfigs d)(l := None)\<rparr>)"

text \<open>The handlers registered with \<^verbatim>\<open>dynAPI.OnUpdate\<close>.\<close>

definition input_OnUpdate ::
  "dynamic_env \<Rightarrow> dynamicInput \<Rightarrow> string \<Rightarrow> string \<Rightarrow> err option \<times> dynamicInput" where
  "input_OnUpdate env d ident c =
     (case yaml_Unmarshal env c of
        Inl e \<Rightarrow> (Some e, d)
      | Inr newConf \<Rightarrow>
          (case NewInput env ident newConf of
             Inl e \<Rightarrow> (Some e, d)
           | Inr newInput \<Rightarrow>
               (let d1 = d\<lparr>inputConfigs := (inputConfigs d)(ident \<mapsto> newConf)\<rparr>
                in case SetInput env ident newInput of
                     (err, cb) \<Rightarrow>
                       (let d2 = (if cb then input_started ident d1 else d1)
                        in case err of
                             Some e \<Rightarrow>
                               (Some e, d2\<lparr>inputConfigs := (inputConfigs d2)(ident := None)\<rparr>)
                           | None \<Rightarrow> (None, d2)))))"

definition output_OnUpdate ::
  "dynamic_env \<Rightarrow> dynamicOutput \<Rightarrow> string \<Rightarrow> string \<Rightarrow> err option \<times> dynamicOutput" where
  "output_OnUpdate env d ident c =
     (case yaml_Unmarshal env c of
        Inl e \<Rightarrow> (Some e, d)
      | Inr newConf \<Rightarrow>
          (case NewOutput env ident newConf of
             Inl e \<Rightarrow> (Some e, d)
           | Inr newOutput0 \<Rightarrow>
               (case RetryOutputIndefinitely env newOutput0 of
                  Inl e \<Rightarrow> (Some e, d)
                | Inr newOutput \<Rightarrow>
                    (let d1 = d\<lparr>outputConfigs := (outputConfigs d)(ident \<mapsto> newConf)\<rparr>
                     in case SetOutput env ident newOutput of
                          (err, cb) \<Rightarrow>
                            (let d2 = (if cb then output_started ident d1 else d1)
                             in case err of
                                  Some e \<Rightarrow>
                                    (Some e,
                                     d2\<lparr>outputConfigs := (outputConfigs d2)(ident := None)\<rparr>)
                                | None \<Rightarrow> (None, d2))))))"

text \<open>Where an update failed: before anything was handed to the broker, or in the broker.\<close>

definition input_install_attempted :: "dynamic_env \<Rightarrow> string \<Rightarrow> string \<Rightarrow> bool" where
  "input_install_attempted env ident c =
     (case yaml_Unmarshal env c of
        Inl e \<Rightarrow> False
      | Inr newConf \<Rightarrow> (case NewInput env ident newConf of Inl e \<Rightarrow> False | Inr i \<Rightarrow> True))"

definition output_install_attempted :: "dynamic_env \<Rightarrow> string \<Rightarrow> string \<Rightarrow> bool" where
  "output_install_attempted env ident c =
     (case yaml_Unmarshal env c of
        Inl e \<Rightarrow> False
      | Inr newConf \<Rightarrow>
          (case NewOutput env ident newConf of
             Inl e \<Rightarrow> False
           | Inr o1 \<Rightarrow> (case RetryOutputIndefinitely env o1 of Inl e \<Rightarrow> False | Inr o2 \<Rightarrow> True)))"

lemma input_OnUpdate_failed:
  assumes "input_OnUpdate env d ident c = (Some e, d')"
  shows "(input_install_attempted env ident c \<longrightarrow> inputConfigs d' ident = None) \<and>
         (\<not> input_install_attempted env ident c \<longrightarrow> d' = d)"
  using assms
  by (auto simp: input_OnUpdate_def input_install_attempted_def input_started_def Let_def
      split: sum.splits prod.splits option.splits if_splits)

lemma output_OnUpdate_failed:
  assumes "output_OnUpdate env d ident c = (Some e, d')"
  shows "(output_install_attempted env ident c \<longrightarrow> outputConfigs d' ident = None) \<and>
         (\<not> output_install_attempted env ident c \<longrightarrow> d' = d)"
  using assms
  by (auto simp: output_OnUpdate_def output_install_attempted_def output_started_def Let_def
      split: sum.splits prod.splits option.splits if_splits)

lemma input_OnUpdate_frame:
  "ident' \<noteq> ident \<Longrightarrow>
   inputConfigs (snd (input_OnUpdate env d ident c)) ident' = inputConfigs d ident'"
  by (auto simp: input_OnUpdate_def input_started_def Let_def
      split: sum.splits prod.splits option.splits)

lemma output_OnUpdate_frame:
  "ident' \<noteq> ident \<Longrightarrow>
   outputConfigs (snd (output_OnUpdate env d ident c)) ident' = outputConfigs d ident'"
  by (auto simp: output_OnUpdate_def output_started_def Let_def
      split: sum.splits prod.splits option.splits)

text \<open>A step that fails makes the handler return that step's error.\<close>

lemma input_unmarshal_error_returned:
  "yaml_Unmarshal env c = Inl e \<Longrightarrow> input_OnUpdate env d ident c = (Some e, d)"
  by (simp add: input_OnUpdate_def)

lemma input_construct_error_returned:
  "yaml_Unmarshal env c = Inr newConf \<Longrightarrow> NewInput env ident newConf = Inl e \<Longrightarrow>
   input_OnUpdate env d ident c = (Some e, d)"
  by (simp add: input_OnUpdate_def)

lemma input_set_error_returned:
  assumes "yaml_Unmarshal env c = Inr newConf" "NewInput env ident newConf = Inr newInput"
    and "fst (SetInput env ident newInput) = Some e"
  shows "fst (input_OnUpdate env d ident c) = Some e \<and>
         inputConfigs (snd (input_OnUpdate env d ident c)) ident = None"
  using assms
  by (auto simp: input_OnUpdate_def input_started_def Let_def split: prod.splits option.splits)

lemma output_unmarshal_error_returned:
  "yaml_Unmarshal env c = Inl e \<Longrightarrow> output_OnUpdate env d ident c = (Some e, d)"
  by (simp add: output_OnUpdate_def)

lemma output_construct_error_returned:
  "yaml_Unmarshal env c = Inr newConf \<Longrightarrow> NewOutput env ident newConf = Inl e \<Longrightarrow>
   output_OnUpdate env d ident c = (Some e, d)"
  by (simp add: output_OnUpdate_def)

lemma output_retry_error_returned:
  "yaml_Unmarshal env c = Inr newConf \<Longrightarrow> NewOutput env ident newConf = Inr plainOutput \<Longrightarrow>
   RetryOutputIndefinitely env plainOutput = Inl e \<Longrightarrow>
   output_OnUpdate env d ident c = (Some e, d)"
  by (simp add: output_OnUpdate_def)

lemma output_set_error_returned:
  assumes "yaml_Unmarshal env c = Inr newConf" "NewOutput env ident newConf = Inr plainOutput"
    and "RetryOutputIndefinitely env plainOutput = Inr newOutput"
    and "fst (SetOutput env ident newOutput) = Some e"
  shows "fst (output_OnUpdate env d ident c) = Some e \<and>
         outputConfigs (snd (output_OnUpdate env d ident c)) ident = None"
  using assms
  by (auto simp: output_OnUpdate_def output_started_def Let_def split: prod.splits option.splits)

text \<open>
  C10 (as amended). An update of an id in which a step fails returns that step's
  error: the error of the decoder, of the constructor (for outputs also of the retry
  wrapper) or of the broker. If the failure came from installing the component into the
  broker, the config map has no entry for the id afterwards. If the config did not
  unmarshal or the component could not be built, the whole state is as before the
  update, so the map has an entry for the id exactly when it had one before. In
  particular a failed update never leaves an entry for an id that had none.
\<close>

theorem C10_failed_update:
  "(yaml_Unmarshal env c = Inl e \<longrightarrow>
      input_OnUpdate env din ident c = (Some e, din) \<and>
      output_OnUpdate env dout ident c = (Some e, dout)) \<and>
   (yaml_Unmarshal env c = Inr newConf \<and> NewInput env ident newConf = Inl e \<longrightarrow>
      input_OnUpdate env din ident c = (Some e, din)) \<and>
   (yaml_Unmarshal env c = Inr newConf \<and> NewOutput env ident newConf = Inl e \<longrightarrow>
      output_OnUpdate env dout ident c = (Some e, dout)) \<and>
   (yaml_Unmarshal env c = Inr newConf \<and> NewOutput env ident newConf = Inr plainOutput \<and>
    RetryOutputIndefinitely env plainOutput = Inl e \<longrightarrow>
      output_OnUpdate env dout ident c = (Some e, dout)) \<and>
   (yaml_Unmarshal env c = Inr newConf \<and> NewInput env ident newConf = Inr newInput \<and>
    fst (SetInput env ident newInput) = Some e \<longrightarrow>
      fst (input_OnUpdate env din ident c) = Some e \<and>
      inputConfigs (snd (input_OnUpdate env din ident c)) ident = None) \<and>
   (yaml_Unmarshal env c = Inr newConf \<and> NewOutput env ident newConf = Inr plainOutput \<and>
    RetryOutputIndefinitely env plainOutput = Inr newOutput \<and>
    fst (SetOutput env ident newOutput) = Some e \<longrightarrow>
      fst (output_OnUpdate env dout ident c) = Some e \<and>
      outputConfigs (snd (output_OnUpdate env dout ident c)) ident = None) \<and>
   (input_OnUpdate env din ident c = (Some e, din') \<longrightarrow>
      (input_install_attempted env ident c \<longrightarrow> inputConfigs din' ident = None) \<and>
      (\<not> input_install_attempted env ident c \<longrightarrow> din' = din) \<and>
      (inputConfigs din ident = None \<longrightarrow> inputConfigs din' ident = None)) \<and>
   (output_OnUpdate env dout ident c = (Some e, dout') \<longrightarrow>
      (output_install_attempted env ident c \<longrightarrow> outputConfigs dout' ident = None) \<and>
      (\<not> output_install_attempted env ident c \<longrightarrow> dout' = dout) \<and>
      (outputConfigs dout ident = None \<longrightarrow> outputConfigs dout' ident = None))"
proof -
  have i: "(input_install_attempted env ident c \<longrightarrow> inputConfigs din' ident = None) \<and>
      (\<not> input_install_attempted env ident c \<longrightarrow> din' = din) \<and>
      (inputConfigs din ident = None \<longrightarrow> inputConfigs din' ident = None)"
    if f: "input_OnUpdate env din ident c = (Some e, din')"
    using input_OnUpdate_failed [OF f]
    by (cases "input_install_attempted env ident c") auto
  have o: "(output_install_attempted env ident c \<longrightarrow> outputConfigs dout' ident = None) \<and>
      (\<not> output_install_attempted env ident c \<longrightarrow> dout' = dout) \<and>
      (outputConfigs dout ident = None \<longrightarrow> outputConfigs dout' ident = None)"
    if f: "output_OnUpdate env dout ident c = (Some e, dout')"
    using output_OnUpdate_failed [OF f]
    by (cases "output_install_attempted env ident c") auto
  show ?thesis
    using i o
      input_unmarshal_error_returned [of env c e din ident]
      output_unmarshal_error_returned [of env c e dout ident]
      input_construct_error_returned [of env c newConf ident e din]
      output_construct_error_returned [of env c newConf ident e dout]
      output_retry_error_returned [of env c newConf ident plainOutput e dout]
      input_set_error_returned [of env c newConf ident newInput e din]
      output_set_error_returned [of env c newConf ident plainOutput newOutput e dout]
    by blast
qed

text \<open>
  Concrete updates. The decoder accepts one config text and rejects the rest; the
  constructors build component 1. In \<open>accepting_broker\<close> the broker installs the
  component and returns before its start callback has run; in \<open>closed_broker\<close> it
  refuses.
\<close>

definition accepting_broker :: dynamic_env where
  "accepting_broker =
     \<lparr>yaml_Unmarshal = (\<lambda>c. if c = ''generate: {}'' then Inr c
                              else Inl (Upstream ''yaml: unmarshal errors'')),
      NewInput = (\<lambda>ident conf. Inr 1),
      SetInput = (\<lambda>ident i. (None, False)),
      NewOutput = (\<lambda>ident conf. Inr 1),
      RetryOutputIndefinitely = (\<lambda>c. Inr c),
      SetOutput = (\<lambda>ident i. (None, False))\<rparr>"

definition closed_broker :: dynamic_env where
  "closed_broker =
     \<lparr>yaml_Unmarshal = (\<lambda>c. if c = ''generate: {}'' then Inr c
                              else Inl (Upstream ''yaml: unmarshal errors'')),
      NewInput = (\<lambda>ident conf. Inr 1),
      SetInput = (\<lambda>ident i. (Some (Upstream ''type was closed''), False)),
      NewOutput = (\<lambda>ident conf. Inr 1),
      RetryOutputIndefinitely = (\<lambda>c. Inr c),
      SetOutput = (\<lambda>ident i. (Some (Upstream ''type was closed''), False))\<rparr>"

definition static_foo :: dynamicInput where
  "static_foo = \<lparr>inputConfigs = [''foo'' \<mapsto> ''generate: {}''], inputs_Started = []\<rparr>"

definition no_inputs :: dynamicInput where
  "no_inputs = \<lparr>inputConfigs = Map.empty, inputs_Started = []\<rparr>"

text \<open>
  C10 as stated fails when the map already holds an entry for the id: the entry of the
  statically configured input foo (the map starts as \<^verbatim>\<open>conf.Dynamic.Inputs\<close>), or the
  entry a first, successful update of foo has just stored. An update of foo whose body
  does not unmarshal then returns the error and the entry is still there.
\<close>

theorem C10_entry_survives_counterexample:
  "fst (input_OnUpdate accepting_broker static_foo ''foo'' ''{'') =
     Some (Upstream ''yaml: unmarshal errors'') \<and>
   inputConfigs (snd (input_OnUpdate accepting_broker static_foo ''foo'' ''{'')) ''foo'' =
     Some ''generate: {}'' \<and>
   fst (input_OnUpdate accepting_broker no_inputs ''foo'' ''generate: {}'') = None \<and>
   fst (input_OnUpdate accepting_broker
          (snd (input_OnUpdate accepting_broker no_inputs ''foo'' ''generate: {}''))
          ''foo'' ''{'') =
     Some (Upstream ''yaml: unmarshal errors'') \<and>
   inputConfigs (snd (input_OnUpdate accepting_broker
          (snd (input_OnUpdate accepting_broker no_inputs ''foo'' ''generate: {}''))
          ''foo'' ''{'')) ''foo'' =
     Some ''generate: {}''"
  by (simp add: input_OnUpdate_def accepting_broker_def static_foo_def no_inputs_def Let_def)

definition static_out :: dynamicOutput where
  "static_out = \<lparr>outputConfigs = [''foo'' \<mapsto> ''generate: {}''], outputs_Started = []\<rparr>"

text \<open>
  The theorem at updates of foo, whose entry is in the map: an update the broker
  refuses returns the broker's error and leaves no entry for foo; an update whose body
  does not unmarshal returns the decoder's error and leaves the state as it was.
\<close>

theorem C10_failed_update_witness:
  "fst (input_OnUpdate closed_broker static_foo ''foo'' ''generate: {}'') =
     Some (Upstream ''type was closed'') \<and>
   inputConfigs (snd (input_OnUpdate closed_broker static_foo ''foo'' ''generate: {}'')) ''foo'' =
     None \<and>
   fst (output_OnUpdate closed_broker static_out ''foo'' ''generate: {}'') =
     Some (Upstream ''type was closed'') \<and>
   outputConfigs (snd (output_OnUpdate closed_broker static_out ''foo'' ''generate: {}'')) ''foo'' =
     None \<and>
   input_OnUpdate closed_broker static_foo ''foo'' ''{'' =
     (Some (Upstream ''yaml: unmarshal errors''), static_foo) \<and>
   output_OnUpdate closed_broker static_out ''foo'' ''{'' =
     (Some (Upstream ''yaml: unmarshal errors''), static_out)"
proof -
  have steps: "yaml_Unmarshal closed_broker ''generate: {}'' = Inr ''generate: {}''"
    "NewInput closed_broker ''foo'' ''generate: {}'' = Inr 1"
    "fst (SetInput closed_broker ''foo'' 1) = Some (Upstream ''type was closed'')"
    "NewOutput closed_broker ''foo'' ''generate: {}'' = Inr 1"
    "RetryOutputIndefinitely closed_broker 1 = Inr 1"
    "fst (SetOutput closed_broker ''foo'' 1) = Some (Upstream ''type was closed'')"
    "yaml_Unmarshal closed_broker ''{'' = Inl (Upstream ''yaml: unmarshal errors'')"
    by (simp_all add: closed_broker_def)
  from C10_failed_update [where env = closed_broker and c = "''generate: {}''"
      and newConf = "''generate: {}''" and ident = "''foo''" and newInput = 1 and plainOutput = 1
      and newOutput = 1 and e = "Upstream ''type was closed''" and din = static_foo
      and dout = static_out] steps
  have install: "fst (input_OnUpdate closed_broker static_foo ''foo'' ''generate: {}'') =
     Some (Upstream ''type was closed'') \<and>
   inputConfigs (snd (input_OnUpdate closed_broker static_foo ''foo'' ''generate: {}'')) ''foo'' =
     None \<and>
   fst (output_OnUpdate closed_broker static_out ''foo'' ''generate: {}'') =
     Some (Upstream ''type was closed'') \<and>
   outputConfigs (snd (output_OnUpdate closed_broker static_out ''foo'' ''generate: {}'')) ''foo'' =
     None"
    by blast
  from C10_failed_update [where env = closed_broker and c = "''{''"
      and e = "Upstream ''yaml: unmarshal errors''" and din = static_foo
      and dout = static_out and ident = "''foo''"] steps
  have decode: "input_OnUpdate closed_broker static_foo ''foo'' ''{'' =
     (Some (Upstream ''yaml: unmarshal errors''), static_foo) \<and>
   output_OnUpdate closed_broker static_out ''foo'' ''{'' =
     (Some (Upstream ''yaml: unmarshal errors''), static_out)"
    by blast
  from install decode show ?thesis by blast
qed

section \<open>The drop\_on output\<close>

text \<open>
  Modelled from the spec: the \<^verbatim>\<open>drop_on\<close> output wrapper (its writer loop) is not among
  the sources; only its tests are. The model follows section 4.4 of the specification
  word for word: the wrapper hands the transaction to its child; \<^emph>\<open>on child error, if
  on\_error drop the batch (respond nil upstream) else surface the error\<close>; \<^emph>\<open>if
  back\_pressure is set and the child has not accepted the transaction within that
  duration, the transaction is dropped (respond nil upstream) and a back\_pressure error
  is logged\<close>. A policy drop is logged (section 7).

  \<^verbatim>\<open>TestDropOnNothing\<close> and \<^verbatim>\<open>TestDropOnError\<close> run and agree with the model. The two
  back-pressure tests begin with \<^verbatim>\<open>t.Skip()\<close>; one of them,
  \<^verbatim>\<open>TestDropOnBackpressureWithErrors\<close>, expects the back-pressure error upstream when
  \<^verbatim>\<open>on_error\<close> is not set, which the specification does not say.

  Durations are in milliseconds. A child either accepts the transaction after some
  time and responds, or does not accept it at all.
\<close>

record DropOn =
  DropOn_Error :: bool
  DropOn_BackPressure :: "nat option"

datatype child = Responds nat "err option" | Blocks

text \<open>\<open>not_accepted_within d c\<close>: the child has not accepted the transaction within \<open>d\<close>.\<close>

fun not_accepted_within :: "nat \<Rightarrow> child \<Rightarrow> bool" where
  "not_accepted_within d Blocks = True"
| "not_accepted_within d (Responds t r) = (d < t)"

text \<open>What the wrapper logs: a back-pressure error for a duration, or a dropped error.\<close>

datatype dropOn_log = LogBackPressure nat | LogDropped err

record dropOn_result =
  respond :: "err option option"
  logged :: "dropOn_log list"

text \<open>
  The transaction handed to the child: what is responded upstream (\<open>None\<close>: nothing
  yet, the wrapper is blocked on the child; \<open>Some None\<close>: nil) and what is logged.
\<close>

definition dropOn_child :: "DropOn \<Rightarrow> child \<Rightarrow> dropOn_result" where
  "dropOn_child conf c =
     (case c of
        Blocks \<Rightarrow> \<lparr>respond = None, logged = []\<rparr>
      | Responds t None \<Rightarrow> \<lparr>respond = Some None, logged = []\<rparr>
      | Responds t (Some e) \<Rightarrow>
          (if DropOn_Error conf then \<lparr>respond = Some None, logged = [LogDropped e]\<rparr>
           else \<lparr>respond = Some (Some e), logged = []\<rparr>))"

text \<open>One transaction through the wrapper.\<close>

definition dropOn :: "DropOn \<Rightarrow> child \<Rightarrow> dropOn_result" where
  "dropOn conf c =
     (case DropOn_BackPressure conf of
        Some d \<Rightarrow>
          (if not_accepted_within d c
           then \<lparr>respond = Some None, logged = [LogBackPressure d]\<rparr>
           else dropOn_child conf c)
      | None \<Rightarrow> dropOn_child conf c)"

text \<open>
  The two tests that run, as what they send and what they assert of the response: the
  HTTP child answers 403 at once.
\<close>

definition forbidden :: err where
  "forbidden = Upstream ''HTTP request returned unexpected response code (403): 403 Forbidden, Error: test error''"

lemma dropOn_tests:
  "respond (dropOn \<lparr>DropOn_Error = False, DropOn_BackPressure = None\<rparr>
              (Responds 0 (Some forbidden))) = Some (Some forbidden)"
  "respond (dropOn \<lparr>DropOn_Error = True, DropOn_BackPressure = None\<rparr>
              (Responds 0 (Some forbidden))) = Some None"
  by (simp_all add: dropOn_def dropOn_child_def)

text \<open>
  C4. When the child accepts the transaction (in time, if \<^verbatim>\<open>back_pressure\<close> is set) and
  responds with an error, the wrapper responds nil upstream if \<^verbatim>\<open>on_error\<close> is set and
  the child's error if it is not.
\<close>

theorem C4_child_error:
  assumes "c = Responds t (Some e)"
    and "\<forall>d. DropOn_BackPressure conf = Some d \<longrightarrow> \<not> not_accepted_within d c"
  shows "respond (dropOn conf c) = Some (if DropOn_Error conf then None else Some e)"
  using assms by (auto simp: dropOn_def dropOn_child_def split: option.splits)

text \<open>
  The theorem at the 403 of the tests, with and without \<^verbatim>\<open>on_error\<close>.
\<close>

theorem C4_child_error_witness:
  "respond (dropOn \<lparr>DropOn_Error = True, DropOn_BackPressure = Some 100\<rparr>
              (Responds 5 (Some forbidden))) = Some None \<and>
   respond (dropOn \<lparr>DropOn_Error = False, DropOn_BackPressure = None\<rparr>
              (Responds 5 (Some forbidden))) = Some (Some forbidden)"
  using C4_child_error [of "Responds 5 (Some forbidden)" 5 forbidden
      "\<lparr>DropOn_Error = True, DropOn_BackPressure = Some 100\<rparr>"]
    C4_child_error [of "Responds 5 (Some forbidden)" 5 forbidden
      "\<lparr>DropOn_Error = False, DropOn_BackPressure = None\<rparr>"]
  by simp

section \<open>The dedupe processor\<close>

text \<open>
  Modelled from the spec: the \<^verbatim>\<open>dedupe\<close> processor is not among the sources; only its
  tests are (\<^verbatim>\<open>TestDedupe\<close>, \<^verbatim>\<open>TestDedupeCacheErrors\<close>). Section 4.3 of the
  specification: the processor \<^emph>\<open>computes a fingerprint via interpolation, looks up in a
  named cache; if present and drop-on-found, drops the message; if absent, writes and
  forwards. Cache access failure is governed by drop\_on\_err: the former drops, the
  latter forwards.\<close> Dropping what is found is the processor's fixed policy here: no
  configuration field of the tests turns it off.

  The fingerprint is a function of the message (the specification treats interpolation
  as a pure function). The manager's caches are a map from the cache's name to the keys
  it holds; within its retention window a cache forgets nothing. Access to a cache
  fails when the manager has no cache of that name, as in \<^verbatim>\<open>TestDedupeCacheErrors\<close>.
\<close>

record Dedupe =
  Dedupe_Cache :: string
  Dedupe_Key :: "string \<Rightarrow> string"
  Dedupe_DropOnCacheErr :: bool

type_synonym caches = "string \<rightharpoonup> string set"

text \<open>One message: the messages forwarded (none or the message) and the caches after.\<close>

definition dedupe_message :: "Dedupe \<Rightarrow> caches \<Rightarrow> string \<Rightarrow> string list \<times> caches" where
  "dedupe_message conf cs m =
     (case cs (Dedupe_Cache conf) of
        None \<Rightarrow> (if Dedupe_DropOnCacheErr conf then [] else [m], cs)
      | Some keys \<Rightarrow>
          (if Dedupe_Key conf m \<in> keys then ([], cs)
           else ([m], cs(Dedupe_Cache conf \<mapsto> insert (Dedupe_Key conf m) keys))))"

text \<open>The messages of a stream, in the order they reach the processor.\<close>

fun dedupe_messages :: "Dedupe \<Rightarrow> caches \<Rightarrow> string list \<Rightarrow> string list \<times> caches" where
  "dedupe_messages conf cs [] = ([], cs)"
| "dedupe_messages conf cs (m # ms) =
     (case dedupe_message conf cs m of
        (out, cs1) \<Rightarrow>
          (case dedupe_messages conf cs1 ms of (outs, cs2) \<Rightarrow> (out @ outs, cs2)))"

text \<open>
  \<^verbatim>\<open>ProcessBatch\<close>: the surviving messages of the batch travel on as one batch; a batch
  with no survivor yields no batch.
\<close>

definition dedupe_ProcessBatch :: "Dedupe \<Rightarrow> caches \<Rightarrow> string list \<Rightarrow> string list list \<times> caches" where
  "dedupe_ProcessBatch conf cs batch =
     (case dedupe_messages conf cs batch of
        (out, cs1) \<Rightarrow> (if out = [] then [] else [out], cs1))"

text \<open>The two tests of the sources: the fingerprint is the content of the message.\<close>

definition content_key :: "bool \<Rightarrow> Dedupe" where
  "content_key dropOnErr =
     \<lparr>Dedupe_Cache = ''foocache'', Dedupe_Key = (\<lambda>m. m), Dedupe_DropOnCacheErr = dropOnErr\<rparr>"

definition foocache :: caches where
  "foocache = [''foocache'' \<mapsto> {}]"

lemma dedupe_tests:
  "fst (dedupe_ProcessBatch (content_key True) foocache [''hello world'']) = [[''hello world'']]"
  "fst (dedupe_ProcessBatch (content_key True)
          (snd (dedupe_ProcessBatch (content_key True) foocache [''hello world'']))
          [''hello world'']) = []"
  "fst (dedupe_ProcessBatch (content_key True) foocache
          [''hello world'', ''hello world'', ''hello world 2'']) =
     [[''hello world'', ''hello world 2'']]"
  "fst (dedupe_ProcessBatch (content_key True) Map.empty [''foo'', ''bar'']) = []"
  "length (fst (dedupe_ProcessBatch (content_key False) Map.empty [''foo'', ''bar''])) = 1"
  by (simp_all add: dedupe_ProcessBatch_def dedupe_message_def content_key_def foocache_def)

lemma dedupe_messages_by_key:
  assumes "cs (Dedupe_Cache conf) = Some keys"
  shows "filter (\<lambda>m. Dedupe_Key conf m = k) (fst (dedupe_messages conf cs ms)) =
           (if k \<in> keys then [] else take 1 (filter (\<lambda>m. Dedupe_Key conf m = k) ms))"
  using assms
proof (induction ms arbitrary: cs keys)
  case Nil
  then show ?case by simp
next
  case (Cons m ms)
  let ?P = "\<lambda>m. Dedupe_Key conf m = k"
  show ?case
  proof (cases "Dedupe_Key conf m \<in> keys")
    case True
    with Cons.prems have "dedupe_message conf cs m = ([], cs)"
      by (simp add: dedupe_message_def)
    then have out: "fst (dedupe_messages conf cs (m # ms)) = fst (dedupe_messages conf cs ms)"
      by (simp split: prod.splits)
    have ih: "filter ?P (fst (dedupe_messages conf cs ms)) =
        (if k \<in> keys then [] else take 1 (filter ?P ms))"
      by (rule Cons.IH) (rule Cons.prems)
    show ?thesis
      unfolding out ih using True by auto
  next
    case False
    let ?keys1 = "insert (Dedupe_Key conf m) keys"
    let ?cs1 = "cs(Dedupe_Cache conf \<mapsto> ?keys1)"
    from False Cons.prems have "dedupe_message conf cs m = ([m], ?cs1)"
      by (simp add: dedupe_message_def)
    then have out: "fst (dedupe_messages conf cs (m # ms)) = m # fst (dedupe_messages conf ?cs1 ms)"
      by (simp split: prod.splits)
    have ih: "filter ?P (fst (dedupe_messages conf ?cs1 ms)) =
        (if k \<in> ?keys1 then [] else take 1 (filter ?P ms))"
      by (rule Cons.IH) simp
    have "filter ?P (m # fst (dedupe_messages conf ?cs1 ms)) =
        (if k \<in> keys then [] else take 1 (filter ?P (m # ms)))"
    proof (cases "Dedupe_Key conf m = k")
      case same: True
      with False ih show ?thesis by simp
    next
      case other: False
      with ih show ?thesis by auto
    qed
    then show ?thesis unfolding out .
  qed
qed

text \<open>
  C5. A stream \<open>ms\<close> reaches a dedupe processor whose cache is there and does not
  hold the fingerprint \<open>k\<close> yet; \<open>m1 # rest\<close> are the messages of the stream with
  fingerprint \<open>k\<close>, in the order they reach the processor (all of them fall within
  the cache's retention window: the cache forgets nothing). Of these messages exactly
  one comes out, and it is \<open>m1\<close>, the first to reach the processor.
\<close>

theorem C5_dedupe_first_wins:
  assumes "cs (Dedupe_Cache conf) = Some keys"
    and "k \<notin> keys"
    and "filter (\<lambda>m. Dedupe_Key conf m = k) ms = m1 # rest"
  shows "filter (\<lambda>m. Dedupe_Key conf m = k) (fst (dedupe_messages conf cs ms)) = [m1]"
  using dedupe_messages_by_key [of cs conf keys k ms] assms by simp

text \<open>A processor whose fingerprint is the first five characters of the message.\<close>

definition prefix_key :: Dedupe where
  "prefix_key =
     \<lparr>Dedupe_Cache = ''foocache'', Dedupe_Key = take 5, Dedupe_DropOnCacheErr = True\<rparr>"

text \<open>
  Three messages with the fingerprint \<open>''hello''\<close> and one without: the first of
  the three comes out.
\<close>

theorem C5_dedupe_first_wins_witness:
  "filter (\<lambda>m. Dedupe_Key prefix_key m = ''hello'')
     (fst (dedupe_messages prefix_key foocache
             [''hello one'', ''other'', ''hello two'', ''hello three''])) = [''hello one'']"
  using C5_dedupe_first_wins [of foocache prefix_key "{}" "''hello''"
      "[''hello one'', ''other'', ''hello two'', ''hello three'']" "''hello one''"
      "[''hello two'', ''hello three'']"]
  by (simp add: foocache_def prefix_key_def)

text \<open>
  C6. A message processed while access to the named cache fails is dropped when
  \<^verbatim>\<open>drop_on_err\<close> is true and forwarded when it is false; the caches are as before.
\<close>

theorem C6_dedupe_cache_error:
  assumes "cs (Dedupe_Cache conf) = None"
  shows "dedupe_message conf cs m = (if Dedupe_DropOnCacheErr conf then [] else [m], cs)"
  using assms by (simp add: dedupe_message_def)

text \<open>
  The theorem with no cache of the name, for both settings of \<^verbatim>\<open>drop_on_err\<close>.
\<close>

theorem C6_dedupe_cache_error_witness:
  "dedupe_message (content_key True) Map.empty ''foo'' = ([], Map.empty) \<and>
   dedupe_message (content_key False) Map.empty ''foo'' = ([''foo''], Map.empty)"
  using C6_dedupe_cache_error [of Map.empty "content_key True" "''foo''"]
    C6_dedupe_cache_error [of Map.empty "content_key False" "''foo''"]
  by (simp add: content_key_def)

end
